theory Spec2Isabelle
  imports Complex_Main
begin

section \<open>Numbers\<close>

text \<open>
  A JavaScript number is modelled as a real number or one of the three special values
  that division by zero produces. Arithmetic on finite values is exact (the two zeros
  are identified, so the zero written \<open>Fin 0\<close> behaves as \<open>+0\<close> when it is a divisor;
  rounding and overflow of IEEE doubles are modelled in the next section and used
  where a claim is about rounding, in the weights). The special values follow
  IEEE 754: \<open>x / 0\<close> is \<open>Infinity\<close>, \<open>-Infinity\<close> or \<open>NaN\<close> by the sign of \<open>x\<close>,
  \<open>Infinity - Infinity\<close> and \<open>0 * Infinity\<close> are \<open>NaN\<close>, and \<open>NaN\<close> propagates.
\<close>

datatype jsnum = Fin real | PInf | NInf | NaN

fun is_finite :: "jsnum \<Rightarrow> bool" where
  "is_finite (Fin x) = True"
| "is_finite PInf = False"
| "is_finite NInf = False"
| "is_finite NaN = False"

fun jneg :: "jsnum \<Rightarrow> jsnum" where
  "jneg (Fin x) = Fin (- x)"
| "jneg PInf = NInf"
| "jneg NInf = PInf"
| "jneg NaN = NaN"

fun jadd :: "jsnum \<Rightarrow> jsnum \<Rightarrow> jsnum" where
  "jadd (Fin x) (Fin y) = Fin (x + y)"
| "jadd (Fin x) PInf = PInf"
| "jadd (Fin x) NInf = NInf"
| "jadd PInf (Fin y) = PInf"
| "jadd PInf PInf = PInf"
| "jadd PInf NInf = NaN"
| "jadd NInf (Fin y) = NInf"
| "jadd NInf PInf = NaN"
| "jadd NInf NInf = NInf"
| "jadd NaN b = NaN"
| "jadd a NaN = NaN"

definition jsub :: "jsnum \<Rightarrow> jsnum \<Rightarrow> jsnum" where
  "jsub a b = jadd a (jneg b)"

text \<open>An infinity times a finite factor: the sign of the factor decides, and zero gives \<open>NaN\<close>.\<close>

definition scale_inf :: "jsnum \<Rightarrow> real \<Rightarrow> jsnum" where
  "scale_inf i x = (if x = 0 then NaN else if 0 < x then i else jneg i)"

fun jmul :: "jsnum \<Rightarrow> jsnum \<Rightarrow> jsnum" where
  "jmul (Fin x) (Fin y) = Fin (x * y)"
| "jmul (Fin x) PInf = scale_inf PInf x"
| "jmul (Fin x) NInf = scale_inf NInf x"
| "jmul PInf (Fin y) = scale_inf PInf y"
| "jmul NInf (Fin y) = scale_inf NInf y"
| "jmul PInf PInf = PInf"
| "jmul PInf NInf = NInf"
| "jmul NInf PInf = NInf"
| "jmul NInf NInf = PInf"
| "jmul NaN b = NaN"
| "jmul a NaN = NaN"

fun jdiv :: "jsnum \<Rightarrow> jsnum \<Rightarrow> jsnum" where
  "jdiv (Fin x) (Fin y) =
     (if y = 0 then (if x = 0 then NaN else if 0 < x then PInf else NInf)
      else Fin (x / y))"
| "jdiv (Fin x) PInf = Fin 0"
| "jdiv (Fin x) NInf = Fin 0"
| "jdiv PInf (Fin y) = (if 0 \<le> y then PInf else NInf)"
| "jdiv NInf (Fin y) = (if 0 \<le> y then NInf else PInf)"
| "jdiv PInf PInf = NaN"
| "jdiv PInf NInf = NaN"
| "jdiv NInf PInf = NaN"
| "jdiv NInf NInf = NaN"
| "jdiv NaN b = NaN"
| "jdiv a NaN = NaN"

text \<open>The comparison \<open>a <= b\<close>: false whenever an operand is \<open>NaN\<close>.\<close>

fun jle :: "jsnum \<Rightarrow> jsnum \<Rightarrow> bool" where
  "jle (Fin x) (Fin y) = (x \<le> y)"
| "jle (Fin x) PInf = True"
| "jle (Fin x) NInf = False"
| "jle PInf (Fin y) = False"
| "jle PInf PInf = True"
| "jle PInf NInf = False"
| "jle NInf (Fin y) = True"
| "jle NInf PInf = True"
| "jle NInf NInf = True"
| "jle NaN b = False"
| "jle a NaN = False"

text \<open>The comparison \<open>a < b\<close>, false on \<open>NaN\<close> as well.\<close>

fun jlt :: "jsnum \<Rightarrow> jsnum \<Rightarrow> bool" where
  "jlt NaN b = False"
| "jlt a NaN = False"
| "jlt a b = (\<not> jle b a)"

text \<open>
  A property that was never assigned reads as \<open>undefined\<close>, which arithmetic coerces to
  \<open>NaN\<close>. Optional numeric properties are \<open>jsnum option\<close> with \<open>None\<close> for \<open>undefined\<close>.
\<close>

fun to_number :: "jsnum option \<Rightarrow> jsnum" where
  "to_number None = NaN"
| "to_number (Some x) = x"

section \<open>Rounding to binary64\<close>

text \<open>
  Where a claim is about rounding, the result of an addition or a division is rounded
  to the nearest IEEE 754 binary64 number, ties to the number with the even significand,
  as JavaScript does. \<open>rne\<close> rounds a real to the nearest integer, ties to even.
  \<open>binade x\<close> is the \<open>k\<close> with \<open>2^k \<le> |x| < 2^(k+1)\<close>, and \<open>exponent x\<close> the exponent of
  the last place of the doubles around \<open>x\<close>: 52 places below the binade, and \<open>-1074\<close>, the
  exponent of the least subnormal, where that would be lower. A rounded value of
  magnitude \<open>2^1024\<close> or more overflows to the infinity of its sign. The two zeros are
  identified, as everywhere in this model.
\<close>

definition rne :: "real \<Rightarrow> int" where
  "rne y =
     (let f = \<lfloor>y\<rfloor>
      in if y - of_int f < 1 / 2 then f
         else if 1 / 2 < y - of_int f then f + 1
         else if even f then f else f + 1)"

definition binade :: "real \<Rightarrow> int" where
  "binade x = \<lfloor>log 2 \<bar>x\<bar>\<rfloor>"

definition exponent :: "real \<Rightarrow> int" where
  "exponent x = max (binade x - 52) (- 1074)"

definition round_real :: "real \<Rightarrow> real" where
  "round_real x =
     (if x = 0 then 0 else of_int (rne (x / 2 powi exponent x)) * 2 powi exponent x)"

definition fl64 :: "real \<Rightarrow> jsnum" where
  "fl64 x =
     (if 2 ^ 1024 \<le> \<bar>round_real x\<bar> then (if 0 < x then PInf else NInf)
      else Fin (round_real x))"

fun round_num :: "jsnum \<Rightarrow> jsnum" where
  "round_num (Fin x) = fl64 x"
| "round_num PInf = PInf"
| "round_num NInf = NInf"
| "round_num NaN = NaN"

text \<open>The operators \<open>+\<close> and \<open>/\<close> on doubles: the exact result, rounded.\<close>

definition dadd :: "jsnum \<Rightarrow> jsnum \<Rightarrow> jsnum" where
  "dadd a b = round_num (jadd a b)"

definition ddiv :: "jsnum \<Rightarrow> jsnum \<Rightarrow> jsnum" where
  "ddiv a b = round_num (jdiv a b)"

text \<open>A finite double: a real number that rounding leaves as it is.\<close>

fun is_double :: "jsnum \<Rightarrow> bool" where
  "is_double (Fin x) = (fl64 x = Fin x)"
| "is_double PInf = False"
| "is_double NInf = False"
| "is_double NaN = False"

text \<open>
  For the error analysis: the unit roundoff \<open>2^-53\<close>, half the least subnormal, the
  multiples of the least subnormal \<open>2^-1074\<close> (every double is one), and the rounded sum
  of a list of reals from left to right.
\<close>

definition unit_roundoff :: real where
  "unit_roundoff = 2 powi (- 53)"

definition half_least :: real where
  "half_least = 2 powi (- 1075)"

definition on_grid :: "real \<Rightarrow> bool" where
  "on_grid x = (x / 2 powi (- 1074) = of_int \<lfloor>x / 2 powi (- 1074)\<rfloor>)"

definition fsum :: "real \<Rightarrow> real list \<Rightarrow> real" where
  "fsum a xs = foldl (\<lambda>s x. round_real (s + x)) a xs"

section \<open>The store\<close>

text \<open>
  Stock objects and the arrays of their returns live in a store, because the same stock
  object can be held by the caller and by several portfolios, and \<open>addStock\<close> with
  \<open>clone\<close> copies the reference to the returns array. A reference is an address;
  \<open>next_obj\<close> and \<open>next_arr\<close> are the first addresses not yet allocated.
  The fields \<open>value\<close> and \<open>weight\<close> of a stock do not exist until a portfolio assigns
  them.
\<close>

record stock =
  ticker :: string
  returns :: nat
  average :: jsnum
  value_stock :: "jsnum option"
  weight :: "jsnum option"

record heap =
  objs :: "nat \<Rightarrow> stock"
  arrs :: "nat \<Rightarrow> jsnum list"
  next_obj :: nat
  next_arr :: nat

definition empty_heap :: heap where
  "empty_heap =
     \<lparr>objs = (\<lambda>r. \<lparr>ticker = [], returns = 0, average = Fin 0,
                      value_stock = None, weight = None\<rparr>),
      arrs = (\<lambda>a. []), next_obj = 0, next_arr = 0\<rparr>"

definition returns_of :: "heap \<Rightarrow> nat \<Rightarrow> jsnum list" where
  "returns_of h s = arrs h (returns (objs h s))"

section \<open>Stock (lib/Stock.js)\<close>

text \<open>\<open>new Stock(ticker)\<close>: a fresh object with a fresh empty array and average 0.\<close>

definition Stock :: "heap \<Rightarrow> string \<Rightarrow> nat \<times> heap" where
  "Stock h t =
     (next_obj h,
      h\<lparr>objs := (objs h)(next_obj h :=
              \<lparr>ticker = t, returns = next_arr h, average = Fin 0,
               value_stock = None, weight = None\<rparr>),
        arrs := (arrs h)(next_arr h := []),
        next_obj := next_obj h + 1,
        next_arr := next_arr h + 1\<rparr>)"

text \<open>
  \<open>calculateAverage\<close>: the loop adds the returns from left to right, starting at 0,
  and the sum is divided by the length of the array. The new average is stored and
  returned.
\<close>

definition calculateAverage :: "heap \<Rightarrow> nat \<Rightarrow> jsnum \<times> heap" where
  "calculateAverage h s =
     (let sum = foldl jadd (Fin 0) (returns_of h s);
          avg = jdiv sum (Fin (real (length (returns_of h s))))
      in (avg, h\<lparr>objs := (objs h)(s := (objs h s)\<lparr>average := avg\<rparr>)\<rparr>))"

text \<open>
  \<open>push(open, close, wait)\<close>: the return is appended to the array the stock refers to;
  unless \<open>wait\<close> is the boolean \<open>true\<close>, the average is recomputed. The argument
  \<open>wait\<close> is \<open>None\<close> when it is absent or not a boolean.
\<close>

definition tick_return :: "jsnum \<Rightarrow> jsnum \<Rightarrow> jsnum" where
  "tick_return opn cls = jmul (jdiv (jsub cls opn) opn) (Fin 100)"

definition push :: "heap \<Rightarrow> nat \<Rightarrow> jsnum \<Rightarrow> jsnum \<Rightarrow> bool option \<Rightarrow> heap" where
  "push h s opn cls wait =
     (let a = returns (objs h s);
          h1 = h\<lparr>arrs := (arrs h)(a := arrs h a @ [tick_return opn cls])\<rparr>
      in if wait \<noteq> Some True then snd (calculateAverage h1 s) else h1)"

text \<open>
  The arithmetic mean in the words of the specification: the sum of the returns divided
  by their number.
\<close>

definition arithmetic_mean :: "jsnum list \<Rightarrow> jsnum" where
  "arithmetic_mean rs = jdiv (foldr jadd rs (Fin 0)) (Fin (real (length rs)))"


section \<open>Objects as dictionaries\<close>

text \<open>
  The \<open>stocks\<close> property of a portfolio is an object used as a dictionary from ticker
  to stock. It is an association list in insertion order: assigning to an existing key
  keeps its place, assigning to a new key appends, \<open>delete\<close> removes. Enumeration
  (\<open>Object.keys\<close>, \<open>JSON.stringify\<close>) lists the keys that are array indices first, in
  ascending numeric order, and the other keys after them in insertion order. The list
  holds the own properties only; what a read of \<open>this.stocks[k]\<close> finds along the
  prototype chain, and what an assignment to the key \<open>__proto__\<close> does, is modelled with
  the portfolio below.
\<close>

type_synonym 'v js_object = "(string \<times> 'v) list"

fun obj_set :: "string \<Rightarrow> 'v \<Rightarrow> 'v js_object \<Rightarrow> 'v js_object" where
  "obj_set k v [] = [(k, v)]"
| "obj_set k v (p # ps) = (if fst p = k then (k, v) # ps else p # obj_set k v ps)"

definition obj_delete :: "string \<Rightarrow> 'v js_object \<Rightarrow> 'v js_object" where
  "obj_delete k ps = filter (\<lambda>p. fst p \<noteq> k) ps"

text \<open>The own property of a key, as \<open>hasOwnProperty\<close> sees it.\<close>

definition own_property :: "'v js_object \<Rightarrow> string \<Rightarrow> 'v option" where
  "own_property ps k = map_of ps k"

definition is_digit :: "char \<Rightarrow> bool" where
  "is_digit c = (c \<in> set ''0123456789'')"

definition digit_value :: "char \<Rightarrow> nat" where
  "digit_value c = of_char c - 48"

definition numeric_value :: "string \<Rightarrow> nat" where
  "numeric_value s = foldl (\<lambda>n c. 10 * n + digit_value c) 0 s"

text \<open>
  An array index is the canonical decimal string of an integer from 0 to \<open>2^32 - 2\<close>.
\<close>

definition is_array_index :: "string \<Rightarrow> bool" where
  "is_array_index s =
     (case s of
        [] \<Rightarrow> False
      | c # cs \<Rightarrow> list_all is_digit s \<and> (if c = CHR ''0'' then cs = [] else True)
                 \<and> numeric_value s < 4294967295)"

definition Object_entries :: "'v js_object \<Rightarrow> 'v js_object" where
  "Object_entries ps =
     sort_key (\<lambda>p. numeric_value (fst p)) (filter (\<lambda>p. is_array_index (fst p)) ps)
     @ filter (\<lambda>p. \<not> is_array_index (fst p)) ps"

definition Object_keys :: "'v js_object \<Rightarrow> string list" where
  "Object_keys ps = map fst (Object_entries ps)"

section \<open>Matrices (the Sylvester library)\<close>

text \<open>
  The matrix library is not part of the repository; the four operations the portfolio
  uses are modelled here. \<open>Matrix.create\<close> of a flat array builds a column, of an array
  of rows a matrix; it looks at \<open>elements[0][0]\<close> to tell the two apart, which throws a
  \<open>TypeError\<close> when the array is empty or its first element is \<open>undefined\<close>.
  \<open>multiply\<close> returns \<open>null\<close> (here \<open>None\<close>) when the dimensions do not agree, and
  \<open>e(i, j)\<close> returns \<open>null\<close> outside the matrix. Each entry of a product is accumulated
  from 0; addition in this model is associative and commutative, so the order in which
  the library adds the products does not matter. The matrices the portfolio builds are
  rectangular and not empty.
\<close>

datatype error = TypeError

type_synonym matrix = "jsnum list list"

fun Matrix_create_vector :: "jsnum option list \<Rightarrow> error + matrix" where
  "Matrix_create_vector [] = Inl TypeError"
| "Matrix_create_vector (None # ws) = Inl TypeError"
| "Matrix_create_vector (Some w # ws) = Inr (map (\<lambda>x. [to_number x]) (Some w # ws))"

fun Matrix_create_rows :: "jsnum list list \<Rightarrow> error + matrix" where
  "Matrix_create_rows [] = Inl TypeError"
| "Matrix_create_rows (row # rows) = Inr (row # rows)"

definition dot :: "jsnum list \<Rightarrow> jsnum list \<Rightarrow> jsnum" where
  "dot xs ys = foldl (\<lambda>s (x, y). jadd s (jmul x y)) (Fin 0) (zip xs ys)"

text \<open>Reading past the end of a row gives \<open>undefined\<close>, which a product turns into \<open>NaN\<close>.\<close>

definition column :: "matrix \<Rightarrow> nat \<Rightarrow> jsnum list" where
  "column M j = map (\<lambda>row. if j < length row then row ! j else NaN) M"

definition transpose_m :: "matrix \<Rightarrow> matrix" where
  "transpose_m M = (case M of [] \<Rightarrow> [] | row # rows \<Rightarrow> map (column M) [0..<length row])"

definition multiply :: "matrix \<Rightarrow> matrix \<Rightarrow> matrix option" where
  "multiply A B =
     (case (A, B) of
        (ra # as, rb # bs) \<Rightarrow>
          if length ra = length B
          then Some (map (\<lambda>row. map (\<lambda>j. dot row (column B j)) [0..<length rb]) A)
          else None
      | _ \<Rightarrow> None)"

definition e :: "matrix \<Rightarrow> nat \<Rightarrow> nat \<Rightarrow> jsnum option" where
  "e M i j =
     (case M of
        [] \<Rightarrow> None
      | row # rows \<Rightarrow>
          if i < 1 \<or> i > length M \<or> j < 1 \<or> j > length row then None
          else Some (M ! (i - 1) ! (j - 1)))"

section \<open>JSON\<close>

text \<open>
  \<open>JSON.stringify\<close> is modelled by the tree it writes: the text of a tree determines
  the tree, so comparing two serialisations as strings is comparing the trees. A finite
  number is written as itself; \<open>NaN\<close> and the infinities are all written \<open>null\<close>;
  a property whose value is \<open>undefined\<close> is left out.
\<close>

datatype json = JNull | JNum real | JStr string | JArr "json list" | JObj "(string \<times> json) list"

fun json_of_num :: "jsnum \<Rightarrow> json" where
  "json_of_num (Fin x) = JNum x"
| "json_of_num PInf = JNull"
| "json_of_num NInf = JNull"
| "json_of_num NaN = JNull"

fun json_prop :: "string \<Rightarrow> jsnum option \<Rightarrow> (string \<times> json) list" where
  "json_prop k None = []"
| "json_prop k (Some x) = [(k, json_of_num x)]"

definition stock_json :: "heap \<Rightarrow> nat \<Rightarrow> json" where
  "stock_json h r =
     JObj ([(''ticker'', JStr (ticker (objs h r))),
            (''returns'', JArr (map json_of_num (returns_of h r))),
            (''average'', json_of_num (average (objs h r)))]
           @ json_prop ''value'' (value_stock (objs h r))
           @ json_prop ''weight'' (weight (objs h r)))"

definition stringify :: "heap \<Rightarrow> nat js_object \<Rightarrow> json" where
  "stringify h st = JObj (map (\<lambda>p. (fst p, stock_json h (snd p))) (Object_entries st))"

section \<open>Portfolio (lib/Portfolio.js)\<close>

text \<open>
  \<open>stocks\<close> holds the own properties of \<open>this.stocks\<close>. \<open>stocks_proto\<close> is the prototype
  of that object: \<open>None\<close> for \<open>Object.prototype\<close>, which an object literal starts with,
  or the stock object that an assignment to the key \<open>__proto__\<close> has put in its place.
\<close>

record portfolio =
  stocks :: "nat js_object"
  stocks_proto :: "nat option"
  value_portfolio :: jsnum
  risk :: jsnum
  cache :: "json option"

definition Portfolio :: portfolio where
  "Portfolio =
     \<lparr>stocks = [], stocks_proto = None, value_portfolio = Fin 0, risk = Fin 0, cache = None\<rparr>"

text \<open>
  What a read of \<open>this.stocks[k]\<close> gives: a stock object, some other object (a function
  of a prototype, an array, \<open>Object.prototype\<close> itself), a primitive (a string or a
  number) or \<open>undefined\<close>. An assignment of a property on the last two throws a
  \<open>TypeError\<close>, the files being in strict mode.
\<close>

datatype looked_up = Stock_object nat | Other_object | Primitive | Undefined

text \<open>The function-valued properties of \<open>Object.prototype\<close>.\<close>

definition Object_prototype_names :: "string list" where
  "Object_prototype_names =
     [''constructor'', ''__defineGetter__'', ''__defineSetter__'', ''hasOwnProperty'',
      ''__lookupGetter__'', ''__lookupSetter__'', ''isPrototypeOf'', ''propertyIsEnumerable'',
      ''toString'', ''valueOf'', ''toLocaleString'']"

text \<open>
  The properties a stock object contributes when it is the prototype: its own fields,
  and \<open>push\<close> and \<open>calculateAverage\<close> of \<open>Stock.prototype\<close>.
\<close>

definition stock_property :: "heap \<Rightarrow> nat \<Rightarrow> string \<Rightarrow> looked_up option" where
  "stock_property h r k =
     (if k = ''ticker'' then Some Primitive
      else if k = ''returns'' then Some Other_object
      else if k = ''average'' then Some Primitive
      else if k = ''value'' then map_option (\<lambda>x. Primitive) (value_stock (objs h r))
      else if k = ''weight'' then map_option (\<lambda>x. Primitive) (weight (objs h r))
      else if k = ''push'' then Some Other_object
      else if k = ''calculateAverage'' then Some Other_object
      else None)"

definition inherited :: "heap \<Rightarrow> nat option \<Rightarrow> string \<Rightarrow> looked_up" where
  "inherited h proto k =
     (case (case proto of None \<Rightarrow> None | Some r \<Rightarrow> stock_property h r k) of
        Some x \<Rightarrow> x
      | None \<Rightarrow> if k \<in> set Object_prototype_names then Other_object else Undefined)"

text \<open>
  The read \<open>this.stocks[k]\<close>. The key \<open>__proto__\<close> is the accessor of
  \<open>Object.prototype\<close> and gives the prototype; any other key gives the own property, or
  else what the prototype chain has under that name.
\<close>

definition stocks_get :: "heap \<Rightarrow> portfolio \<Rightarrow> string \<Rightarrow> looked_up" where
  "stocks_get h p k =
     (if k = ''__proto__''
      then (case stocks_proto p of None \<Rightarrow> Other_object | Some r \<Rightarrow> Stock_object r)
      else (case own_property (stocks p) k of
              Some m \<Rightarrow> Stock_object m
            | None \<Rightarrow> inherited h (stocks_proto p) k))"

text \<open>The key names a property somewhere along the prototype chain of \<open>this.stocks\<close>.\<close>

definition on_prototype_chain :: "heap \<Rightarrow> portfolio \<Rightarrow> string \<Rightarrow> bool" where
  "on_prototype_chain h p k =
     (if k = ''__proto__'' then True
      else if k \<in> set Object_prototype_names then True
      else (case stocks_proto p of
              None \<Rightarrow> False
            | Some r \<Rightarrow> (case stock_property h r k of None \<Rightarrow> False | Some x \<Rightarrow> True)))"

text \<open>
  The assignment \<open>this.stocks[k] = m\<close> of a stock object: under the key \<open>__proto__\<close> it
  makes \<open>m\<close> the prototype and creates no property; under any other key it sets the own
  property.
\<close>

definition stocks_set :: "portfolio \<Rightarrow> string \<Rightarrow> nat \<Rightarrow> portfolio" where
  "stocks_set p k m =
     (if k = ''__proto__'' then p\<lparr>stocks_proto := Some m\<rparr>
      else p\<lparr>stocks := obj_set k m (stocks p)\<rparr>)"

text \<open>The stocks of a portfolio in the order of \<open>Object.keys(this.stocks)\<close>.\<close>

definition members :: "portfolio \<Rightarrow> nat list" where
  "members p = map snd (Object_entries (stocks p))"

text \<open>An argument that is either a ticker or a stock object.\<close>

datatype stock_arg = ByTicker string | ByStock nat

fun ticker_of :: "heap \<Rightarrow> stock_arg \<Rightarrow> string" where
  "ticker_of h (ByTicker t) = t"
| "ticker_of h (ByStock s) = ticker (objs h s)"

definition calculateTotalValue :: "heap \<Rightarrow> portfolio \<Rightarrow> jsnum \<times> portfolio" where
  "calculateTotalValue h p =
     (let v = foldl (\<lambda>acc r. jadd acc (to_number (value_stock (objs h r)))) (Fin 0) (members p)
      in (v, p\<lparr>value_portfolio := v\<rparr>))"

definition set_weight :: "jsnum \<Rightarrow> heap \<Rightarrow> nat \<Rightarrow> heap" where
  "set_weight tot h r =
     h\<lparr>objs := (objs h)(r := (objs h r)
          \<lparr>weight := Some (jdiv (to_number (value_stock (objs h r))) tot)\<rparr>)\<rparr>"

definition calculateWeights :: "heap \<Rightarrow> portfolio \<Rightarrow> heap \<times> portfolio" where
  "calculateWeights h p =
     (let p1 = snd (calculateTotalValue h p)
      in (foldl (set_weight (value_portfolio p1)) h (members p), p1))"

definition set_value :: "heap \<Rightarrow> nat \<Rightarrow> jsnum \<Rightarrow> heap" where
  "set_value h r v = h\<lparr>objs := (objs h)(r := (objs h r)\<lparr>value_stock := Some v\<rparr>)\<rparr>"

text \<open>
  \<open>addStock(stock, value, clone)\<close>. With \<open>clone\<close> the boolean \<open>true\<close>, a new stock is
  constructed and its \<open>ticker\<close>, \<open>returns\<close> and \<open>average\<close> are assigned from the
  original: \<open>returns\<close> is assigned the reference to the original's array. Otherwise the
  caller's object is stored. The object is then read back under the ticker (the read
  gives the object just assigned, lemma \<open>stocks_get_stocks_set\<close>) and gets its \<open>value\<close>,
  and the weights are recomputed.
\<close>

definition clone_stock :: "heap \<Rightarrow> nat \<Rightarrow> nat \<times> heap" where
  "clone_stock h s =
     (let (c, h1) = Stock h (ticker (objs h s))
      in (c, h1\<lparr>objs := (objs h1)(c := (objs h1 c)
                  \<lparr>ticker := ticker (objs h1 s),
                   returns := returns (objs h1 s),
                   average := average (objs h1 s)\<rparr>)\<rparr>))"

definition addStock ::
  "heap \<Rightarrow> portfolio \<Rightarrow> nat \<Rightarrow> jsnum \<Rightarrow> bool option \<Rightarrow> heap \<times> portfolio" where
  "addStock h p s v clone =
     (let (m, h1) = (if clone = Some True then clone_stock h s else (s, h));
          p1 = stocks_set p (ticker (objs h1 s)) m;
          h2 = set_value h1 m v
      in calculateWeights h2 p1)"

definition removeStock :: "heap \<Rightarrow> portfolio \<Rightarrow> stock_arg \<Rightarrow> heap \<times> portfolio" where
  "removeStock h p a =
     calculateWeights h (p\<lparr>stocks := obj_delete (ticker_of h a) (stocks p)\<rparr>)"

text \<open>
  \<open>updateStock\<close>: \<open>this.stocks[ticker].value = value\<close>. When the read gives
  \<open>undefined\<close> or a primitive, the assignment throws a \<open>TypeError\<close> before anything is
  changed. When it gives an inherited function or array, the property is created on
  that object, which no stock or portfolio reads, and the weights are recomputed. (Under
  the key \<open>__proto__\<close> of a portfolio that still has \<open>Object.prototype\<close> the property
  lands on \<open>Object.prototype\<close>; the library reads \<open>value\<close> only from members, which
  have their own.)
\<close>

definition updateStock ::
  "heap \<Rightarrow> portfolio \<Rightarrow> stock_arg \<Rightarrow> jsnum \<Rightarrow> error + heap \<times> portfolio" where
  "updateStock h p a v =
     (case stocks_get h p (ticker_of h a) of
        Stock_object m \<Rightarrow> Inr (calculateWeights (set_value h m v) p)
      | Other_object \<Rightarrow> Inr (calculateWeights h p)
      | Primitive \<Rightarrow> Inl TypeError
      | Undefined \<Rightarrow> Inl TypeError)"

definition getStockTickers :: "portfolio \<Rightarrow> string list" where
  "getStockTickers p = Object_keys (stocks p)"

text \<open>
  \<open>hasStock\<close> calls \<open>this.stocks.hasOwnProperty\<close>, which is a stock object and not a
  function when a stock with the ticker \<open>hasOwnProperty\<close> is a member.
\<close>

definition hasStock :: "heap \<Rightarrow> portfolio \<Rightarrow> stock_arg \<Rightarrow> error + bool" where
  "hasStock h p a =
     (case own_property (stocks p) ''hasOwnProperty'' of
        Some m \<Rightarrow> Inl TypeError
      | None \<Rightarrow> Inr (own_property (stocks p) (ticker_of h a) \<noteq> None))"

text \<open>
  \<open>calculateCovariance\<close>: the same object gives 1; otherwise the loop runs over the first
  \<open>n\<close> returns of both, \<open>n\<close> the smaller length, and the sum is divided by \<open>n - 1\<close>,
  a subtraction of numbers (so \<open>-1\<close> when \<open>n\<close> is 0).
\<close>

definition calculateCovariance :: "heap \<Rightarrow> nat \<Rightarrow> nat \<Rightarrow> jsnum" where
  "calculateCovariance h stockA stockB =
     (if stockA = stockB then Fin 1
      else
        let n = min (length (returns_of h stockA)) (length (returns_of h stockB));
            diffSum = foldl (\<lambda>acc i.
                jadd acc (jmul (jsub (returns_of h stockA ! i) (average (objs h stockA)))
                               (jsub (returns_of h stockB ! i) (average (objs h stockB)))))
              (Fin 0) [0..<n]
        in jdiv diffSum (Fin (real n - 1)))"

definition createWeightMatrix :: "heap \<Rightarrow> portfolio \<Rightarrow> error + matrix" where
  "createWeightMatrix h p = Matrix_create_vector (map (\<lambda>r. weight (objs h r)) (members p))"

definition createCovarianceMatrix :: "heap \<Rightarrow> portfolio \<Rightarrow> error + matrix" where
  "createCovarianceMatrix h p =
     Matrix_create_rows
       (map (\<lambda>stockA. map (\<lambda>stockB. calculateCovariance h stockA stockB) (members p))
            (members p))"

text \<open>
  The matrix work of \<open>calculateRisk\<close>: both matrices are created, the covariance matrix
  is multiplied by the weight column, the transposed weights by that product, and the
  entry (1, 1) of the result is the risk. A method call on \<open>null\<close> throws. Once both
  matrices are created their dimensions agree, so the three last failure cases are
  never taken (lemma \<open>quadratic_defined\<close>).
\<close>

definition risk_product :: "heap \<Rightarrow> portfolio \<Rightarrow> error + jsnum" where
  "risk_product h p =
     (case createWeightMatrix h p of
        Inl err \<Rightarrow> Inl err
      | Inr weightMatrix \<Rightarrow>
     (case createCovarianceMatrix h p of
        Inl err \<Rightarrow> Inl err
      | Inr covarianceMatrix \<Rightarrow>
     (case multiply covarianceMatrix weightMatrix of
        None \<Rightarrow> Inl TypeError
      | Some intermediate \<Rightarrow>
     (case multiply (transpose_m weightMatrix) intermediate of
        None \<Rightarrow> Inl TypeError
      | Some result \<Rightarrow>
     (case e result 1 1 of
        None \<Rightarrow> Inl TypeError
      | Some r \<Rightarrow> Inr r)))))"

text \<open>
  \<open>calculateRisk\<close>: 0 when the stored total value is not positive; otherwise the
  serialisation of the stocks is compared with the cache, and on a difference the risk
  is recomputed and both are stored. When the matrix work throws, nothing was stored.
  The guard is the one of \<open>lib/Portfolio.js\<close>, \<open>this.value <= 0\<close>; the older
  single-file copy of the library tests \<open>this.value > 0\<close> instead, which differs only
  when the total value is \<open>NaN\<close>.
\<close>

definition calculateRisk :: "heap \<Rightarrow> portfolio \<Rightarrow> error + jsnum \<times> portfolio" where
  "calculateRisk h p =
     (if jle (value_portfolio p) (Fin 0) then Inr (Fin 0, p)
      else
        let current = stringify h (stocks p)
        in if cache p \<noteq> Some current
           then (case risk_product h p of
                   Inl err \<Rightarrow> Inl err
                 | Inr r \<Rightarrow> Inr (r, p\<lparr>cache := Some current, risk := r\<rparr>))
           else Inr (risk p, p))"

text \<open>
  The risk computed afresh from the current members, in the words of the specification:
  the total value is the sum of the members' values; the risk is 0 when that total is
  not positive, otherwise the quadratic form of the members' weights and covariances.
  Neither the cache nor the stored total is consulted.
\<close>

definition riskFresh :: "heap \<Rightarrow> portfolio \<Rightarrow> error + jsnum" where
  "riskFresh h p =
     (if jle (fst (calculateTotalValue h p)) (Fin 0) then Inr (Fin 0) else risk_product h p)"

text \<open>The stored total is the sum of the values the members hold now.\<close>

definition value_current :: "heap \<Rightarrow> portfolio \<Rightarrow> bool" where
  "value_current h p = (value_portfolio p = fst (calculateTotalValue h p))"

text \<open>
  The three operations that change the membership or a value of a portfolio; each ends
  in \<open>calculateWeights\<close>.
\<close>

datatype mutation = Add nat jsnum "bool option" | Remove stock_arg | Update stock_arg jsnum

fun mutate :: "heap \<Rightarrow> portfolio \<Rightarrow> mutation \<Rightarrow> error + heap \<times> portfolio" where
  "mutate h p (Add s v clone) = Inr (addStock h p s v clone)"
| "mutate h p (Remove a) = Inr (removeStock h p a)"
| "mutate h p (Update a v) = updateStock h p a v"

definition weight_sum :: "heap \<Rightarrow> portfolio \<Rightarrow> jsnum" where
  "weight_sum h p = foldl jadd (Fin 0) (map (\<lambda>r. to_number (weight (objs h r))) (members p))"

text \<open>Every member has a market value, and it is a finite number.\<close>

definition values_finite :: "heap \<Rightarrow> portfolio \<Rightarrow> bool" where
  "values_finite h p =
     list_all (\<lambda>r. is_finite (to_number (value_stock (objs h r)))) (members p)"

definition returned_risk :: "heap \<Rightarrow> portfolio \<Rightarrow> error + jsnum" where
  "returned_risk h p = (case calculateRisk h p of Inl err \<Rightarrow> Inl err | Inr rp \<Rightarrow> Inr (fst rp))"

text \<open>Every number a member holds is finite: its returns, average, value and weight.\<close>

definition finite_stock :: "heap \<Rightarrow> nat \<Rightarrow> bool" where
  "finite_stock h r =
     (list_all is_finite (returns_of h r) \<and> is_finite (average (objs h r))
      \<and> is_finite (to_number (value_stock (objs h r)))
      \<and> is_finite (to_number (weight (objs h r))))"

definition members_finite :: "heap \<Rightarrow> portfolio \<Rightarrow> bool" where
  "members_finite h p = list_all (finite_stock h) (members p)"

subsection \<open>The weights in binary64 arithmetic\<close>

text \<open>
  \<open>calculateTotalValue\<close> and \<open>calculateWeights\<close> once more, with the result of every
  \<open>+=\<close> and every \<open>/\<close> rounded to a double, and the three operations that end in
  \<open>calculateWeights\<close> once more on top of them; nothing else differs from the
  definitions above.
\<close>

definition calculateTotalValue_double :: "heap \<Rightarrow> portfolio \<Rightarrow> jsnum \<times> portfolio" where
  "calculateTotalValue_double h p =
     (let v = foldl (\<lambda>acc r. dadd acc (to_number (value_stock (objs h r)))) (Fin 0) (members p)
      in (v, p\<lparr>value_portfolio := v\<rparr>))"

definition set_weight_double :: "jsnum \<Rightarrow> heap \<Rightarrow> nat \<Rightarrow> heap" where
  "set_weight_double tot h r =
     h\<lparr>objs := (objs h)(r := (objs h r)
          \<lparr>weight := Some (ddiv (to_number (value_stock (objs h r))) tot)\<rparr>)\<rparr>"

definition calculateWeights_double :: "heap \<Rightarrow> portfolio \<Rightarrow> heap \<times> portfolio" where
  "calculateWeights_double h p =
     (let p1 = snd (calculateTotalValue_double h p)
      in (foldl (set_weight_double (value_portfolio p1)) h (members p), p1))"

definition addStock_double ::
  "heap \<Rightarrow> portfolio \<Rightarrow> nat \<Rightarrow> jsnum \<Rightarrow> bool option \<Rightarrow> heap \<times> portfolio" where
  "addStock_double h p s v clone =
     (let (m, h1) = (if clone = Some True then clone_stock h s else (s, h));
          p1 = stocks_set p (ticker (objs h1 s)) m;
          h2 = set_value h1 m v
      in calculateWeights_double h2 p1)"

definition removeStock_double :: "heap \<Rightarrow> portfolio \<Rightarrow> stock_arg \<Rightarrow> heap \<times> portfolio" where
  "removeStock_double h p a =
     calculateWeights_double h (p\<lparr>stocks := obj_delete (ticker_of h a) (stocks p)\<rparr>)"

definition updateStock_double ::
  "heap \<Rightarrow> portfolio \<Rightarrow> stock_arg \<Rightarrow> jsnum \<Rightarrow> error + heap \<times> portfolio" where
  "updateStock_double h p a v =
     (case stocks_get h p (ticker_of h a) of
        Stock_object m \<Rightarrow> Inr (calculateWeights_double (set_value h m v) p)
      | Other_object \<Rightarrow> Inr (calculateWeights_double h p)
      | Primitive \<Rightarrow> Inl TypeError
      | Undefined \<Rightarrow> Inl TypeError)"

fun mutate_double :: "heap \<Rightarrow> portfolio \<Rightarrow> mutation \<Rightarrow> error + heap \<times> portfolio" where
  "mutate_double h p (Add s v clone) = Inr (addStock_double h p s v clone)"
| "mutate_double h p (Remove a) = Inr (removeStock_double h p a)"
| "mutate_double h p (Update a v) = updateStock_double h p a v"

text \<open>Every member has a market value, and it is a finite double that is not negative.\<close>

definition values_nonneg_doubles :: "heap \<Rightarrow> portfolio \<Rightarrow> bool" where
  "values_nonneg_doubles h p =
     list_all (\<lambda>r. is_double (to_number (value_stock (objs h r)))
                    \<and> jle (Fin 0) (to_number (value_stock (objs h r)))) (members p)"

section \<open>Programs\<close>

text \<open>
  A client program is a sequence of calls on stocks and portfolios. The state is the
  store and the portfolios, which are numbered and all start as \<open>new Portfolio()\<close>.
  A call names a stock by its reference, which must have been allocated; a call that
  throws leaves the state as it was and the program goes on.
\<close>

record state =
  heap_of :: heap
  ports :: "nat \<Rightarrow> portfolio"

definition init :: state where
  "init = \<lparr>heap_of = empty_heap, ports = (\<lambda>i. Portfolio)\<rparr>"

datatype op =
    NewStock string
  | Push nat jsnum jsnum "bool option"
  | CalculateAverage nat
  | AddStock nat nat jsnum "bool option"
  | RemoveStock nat stock_arg
  | UpdateStock nat stock_arg jsnum
  | CalculateTotalValue nat
  | CalculateWeights nat
  | CalculateRisk nat

fun arg_allocated :: "heap \<Rightarrow> stock_arg \<Rightarrow> bool" where
  "arg_allocated h (ByTicker t) = True"
| "arg_allocated h (ByStock s) = (s < next_obj h)"

definition put :: "state \<Rightarrow> nat \<Rightarrow> heap \<times> portfolio \<Rightarrow> state" where
  "put \<sigma> i hp = \<lparr>heap_of = fst hp, ports = (ports \<sigma>)(i := snd hp)\<rparr>"

fun step :: "op \<Rightarrow> state \<Rightarrow> state option" where
  "step (NewStock t) \<sigma> = Some (\<sigma>\<lparr>heap_of := snd (Stock (heap_of \<sigma>) t)\<rparr>)"
| "step (Push s opn cls wait) \<sigma> =
     (if s < next_obj (heap_of \<sigma>)
      then Some (\<sigma>\<lparr>heap_of := push (heap_of \<sigma>) s opn cls wait\<rparr>) else None)"
| "step (CalculateAverage s) \<sigma> =
     (if s < next_obj (heap_of \<sigma>)
      then Some (\<sigma>\<lparr>heap_of := snd (calculateAverage (heap_of \<sigma>) s)\<rparr>) else None)"
| "step (AddStock i s v clone) \<sigma> =
     (if s < next_obj (heap_of \<sigma>)
      then Some (put \<sigma> i (addStock (heap_of \<sigma>) (ports \<sigma> i) s v clone)) else None)"
| "step (RemoveStock i a) \<sigma> =
     (if arg_allocated (heap_of \<sigma>) a
      then Some (put \<sigma> i (removeStock (heap_of \<sigma>) (ports \<sigma> i) a)) else None)"
| "step (UpdateStock i a v) \<sigma> =
     (if arg_allocated (heap_of \<sigma>) a
      then (case updateStock (heap_of \<sigma>) (ports \<sigma> i) a v of
              Inl err \<Rightarrow> Some \<sigma>
            | Inr hp \<Rightarrow> Some (put \<sigma> i hp))
      else None)"
| "step (CalculateTotalValue i) \<sigma> =
     Some (put \<sigma> i (heap_of \<sigma>, snd (calculateTotalValue (heap_of \<sigma>) (ports \<sigma> i))))"
| "step (CalculateWeights i) \<sigma> =
     Some (put \<sigma> i (calculateWeights (heap_of \<sigma>) (ports \<sigma> i)))"
| "step (CalculateRisk i) \<sigma> =
     (case calculateRisk (heap_of \<sigma>) (ports \<sigma> i) of
        Inl err \<Rightarrow> Some \<sigma>
      | Inr rp \<Rightarrow> Some (put \<sigma> i (heap_of \<sigma>, snd rp)))"

text \<open>
  The operations that recompute the stored total of portfolio \<open>i\<close>: its own \<open>addStock\<close>,
  \<open>removeStock\<close>, \<open>updateStock\<close> (when it does not throw), \<open>calculateWeights\<close> and
  \<open>calculateTotalValue\<close>.
\<close>

fun recomputes :: "nat \<Rightarrow> op \<Rightarrow> state \<Rightarrow> bool" where
  "recomputes i (AddStock j s v clone) \<sigma> = (j = i)"
| "recomputes i (RemoveStock j a) \<sigma> = (j = i)"
| "recomputes i (UpdateStock j a v) \<sigma> =
     (j = i \<and> (case updateStock (heap_of \<sigma>) (ports \<sigma> j) a v of
                  Inl err \<Rightarrow> False | Inr hp \<Rightarrow> True))"
| "recomputes i (CalculateWeights j) \<sigma> = (j = i)"
| "recomputes i (CalculateTotalValue j) \<sigma> = (j = i)"
| "recomputes i (NewStock t) \<sigma> = False"
| "recomputes i (Push s opn cls wait) \<sigma> = False"
| "recomputes i (CalculateAverage s) \<sigma> = False"
| "recomputes i (CalculateRisk j) \<sigma> = False"

fun exec :: "op list \<Rightarrow> state \<Rightarrow> state option" where
  "exec [] \<sigma> = Some \<sigma>"
| "exec (x # xs) \<sigma> = (case step x \<sigma> of None \<Rightarrow> None | Some \<sigma>' \<Rightarrow> exec xs \<sigma>')"

text \<open>The state a program ends in, started from nothing.\<close>

definition run :: "op list \<Rightarrow> state" where
  "run prog = (case exec prog init of None \<Rightarrow> init | Some \<sigma> \<Rightarrow> \<sigma>)"

text \<open>
  The scenario of the test suite: \<open>intel\<close> (reference 0) with three ticks, \<open>apple\<close>
  (reference 1) with two, both added to portfolio 0.
\<close>

definition intel_apple :: "op list" where
  "intel_apple =
     [NewStock ''intel'',
      Push 0 (Fin 10) (Fin 20) None, Push 0 (Fin 20) (Fin 30) None, Push 0 (Fin 30) (Fin 15) None,
      NewStock ''apple'',
      Push 1 (Fin 10) (Fin 20) None, Push 1 (Fin 20) (Fin 30) None,
      AddStock 0 0 (Fin 30) None, AddStock 0 1 (Fin 20) None]"

text \<open>Two stocks without any tick.\<close>

definition two_empty :: "op list" where
  "two_empty = [NewStock ''a'', NewStock ''b'']"

text \<open>
  A stock with one tick is added to portfolio 0 with \<open>clone = true\<close>; the copy is the
  object at reference 1.
\<close>

definition clone_then :: "op list" where
  "clone_then =
     [NewStock ''a'', Push 0 (Fin 10) (Fin 20) None, AddStock 0 0 (Fin 30) (Some True)]"

text \<open>
  Two stocks \<open>a\<close> (reference 0) and \<open>b\<close> (reference 1) in portfolio 0, the first tick
  of \<open>a\<close> with opening price 0 and the averages of \<open>a\<close> deferred; the risk is computed;
  a third stock (reference 2), also named \<open>a\<close>, gets the same ticks except that its
  first closing price is \<open>-1\<close>. The mutation that follows replaces member \<open>a\<close> by it.
\<close>

definition same_text :: "op list" where
  "same_text =
     [NewStock ''a'', Push 0 (Fin 0) (Fin 1) (Some True), Push 0 (Fin 1) (Fin 2) (Some True),
      NewStock ''b'', Push 1 (Fin 1) (Fin 2) None, Push 1 (Fin 1) (Fin 3) None,
      AddStock 0 0 (Fin 1) None, AddStock 0 1 (Fin 1) None,
      CalculateRisk 0,
      NewStock ''a'', Push 2 (Fin 0) (Fin (- 1)) (Some True), Push 2 (Fin 1) (Fin 2) (Some True)]"

definition replace_a :: op where
  "replace_a = AddStock 0 2 (Fin 1) None"

text \<open>The scenario of the test suite followed by a computation of the risk, and a
  change of the value of \<open>apple\<close>.\<close>

definition cached :: "op list" where
  "cached = intel_apple @ [CalculateRisk 0]"

definition revalue :: op where
  "revalue = UpdateStock 0 (ByTicker ''apple'') (Fin 30)"

text \<open>Two stocks with one tick each and the averages deferred.\<close>

definition one_tick :: "op list" where
  "one_tick =
     [NewStock ''a'', Push 0 (Fin 10) (Fin 20) (Some True),
      NewStock ''b'', Push 1 (Fin 10) (Fin 30) (Some True)]"

text \<open>
  One stock in portfolio 0 with value \<open>-1\<close>, then added to portfolio 1 with value 5,
  then one more tick.
\<close>

definition shared :: "op list" where
  "shared =
     [NewStock ''a'', Push 0 (Fin 10) (Fin 20) None,
      AddStock 0 0 (Fin (- 1)) None, AddStock 1 0 (Fin 5) None]"

definition one_more_tick :: op where
  "one_more_tick = Push 0 (Fin 20) (Fin 30) None"

text \<open>A stock whose ticker is \<open>__proto__\<close>, added to portfolio 0.\<close>

definition proto_ticker :: "op list" where
  "proto_ticker = [NewStock ''__proto__'', AddStock 0 0 (Fin 30) None]"

subsection \<open>Scenarios in binary64 arithmetic\<close>

text \<open>A store with one new stock, and the portfolio it is added to with value \<open>Infinity\<close>.\<close>

definition one_stock :: heap where
  "one_stock = snd (Stock empty_heap ''a'')"

definition infinite_value :: "heap \<times> portfolio" where
  "infinite_value = addStock_double one_stock Portfolio 0 PInf None"

text \<open>
  Three new stocks \<open>a\<close>, \<open>b\<close> and \<open>c\<close> (references 0, 1 and 2), added to a new portfolio
  with the values \<open>2^53\<close>, 3 and \<open>-2^53\<close>.
\<close>

definition three_stocks :: heap where
  "three_stocks = snd (Stock (snd (Stock (snd (Stock empty_heap ''a'')) ''b'')) ''c'')"

definition opposite_values :: "heap \<times> portfolio" where
  "opposite_values =
     (let (h1, p1) = addStock_double three_stocks Portfolio 0 (Fin 9007199254740992) None;
          (h2, p2) = addStock_double h1 p1 1 (Fin 3) None
      in addStock_double h2 p2 2 (Fin (- 9007199254740992)) None)"

text \<open>
  Two new stocks \<open>intel\<close> and \<open>apple\<close> (references 0 and 1); \<open>intel\<close> is added to a new
  portfolio with value 30. The mutation that follows adds \<open>apple\<close> with value 20.
\<close>

definition two_stocks :: heap where
  "two_stocks = snd (Stock (snd (Stock empty_heap ''intel'')) ''apple'')"

definition intel_added :: "heap \<times> portfolio" where
  "intel_added = addStock_double two_stocks Portfolio 0 (Fin 30) None"

definition add_apple :: mutation where
  "add_apple = Add 1 (Fin 20) None"

section \<open>Invariants\<close>

text \<open>
  What holds of every portfolio in every state a program reaches. The stocks of a
  portfolio have distinct keys, and each key is the ticker of the allocated object
  stored under it (no operation assigns a ticker after construction), so two members
  are the same object exactly when their keys are equal.
\<close>

definition wf_stocks :: "heap \<Rightarrow> nat js_object \<Rightarrow> bool" where
  "wf_stocks h st =
     (distinct (map fst st)
      \<and> (\<forall>p \<in> set st. snd p < next_obj h \<and> ticker (objs h (snd p)) = fst p))"

text \<open>Operations allocate and never change the ticker of an allocated object.\<close>

definition heap_ext :: "heap \<Rightarrow> heap \<Rightarrow> bool" where
  "heap_ext h h' =
     (next_obj h \<le> next_obj h'
      \<and> (\<forall>r. r < next_obj h \<longrightarrow> ticker (objs h' r) = ticker (objs h r)))"

text \<open>What the weights and covariances read of a stock.\<close>

definition content :: "heap \<Rightarrow> nat \<Rightarrow> jsnum list \<times> jsnum \<times> jsnum option" where
  "content h r = (returns_of h r, average (objs h r), weight (objs h r))"

text \<open>Two entries with the same key whose stocks have the same content.\<close>

definition related :: "heap \<Rightarrow> heap \<Rightarrow> string \<times> nat \<Rightarrow> string \<times> nat \<Rightarrow> bool" where
  "related h h' p p' = (fst p = fst p' \<and> content h (snd p) = content h' (snd p'))"

text \<open>
  The cached risk is the risk of every well-formed state of finite numbers that has the
  cached serialisation.
\<close>

definition cache_ok :: "portfolio \<Rightarrow> bool" where
  "cache_ok p =
     (\<forall>c. cache p = Some c \<longrightarrow>
        (\<forall>h' p'. wf_stocks h' (stocks p') \<and> members_finite h' p'
                   \<and> stringify h' (stocks p') = c
           \<longrightarrow> risk_product h' p' = Inr (risk p)))"

text \<open>A portfolio without members has total value 0 or less.\<close>

definition value_ok :: "portfolio \<Rightarrow> bool" where
  "value_ok p = (members p = [] \<longrightarrow> jle (value_portfolio p) (Fin 0))"

definition inv :: "state \<Rightarrow> bool" where
  "inv \<sigma> =
     (\<forall>i. wf_stocks (heap_of \<sigma>) (stocks (ports \<sigma> i)) \<and> cache_ok (ports \<sigma> i)
          \<and> value_ok (ports \<sigma> i))"

section \<open>Arithmetic of the number model\<close>

lemma jadd_commute: "jadd a b = jadd b a"
  by (cases a; cases b) simp_all

lemma jadd_assoc: "jadd (jadd a b) c = jadd a (jadd b c)"
  by (cases a; cases b; cases c) simp_all

lemma jmul_commute: "jmul a b = jmul b a"
  by (cases a; cases b) simp_all

lemma jdiv_zero_not_finite: "\<not> is_finite (jdiv a (Fin 0))"
  by (cases a) simp_all

lemma foldl_jadd_shift: "foldl jadd (jadd a b) rs = jadd a (foldl jadd b rs)"
  by (induction rs arbitrary: b) (simp_all add: jadd_assoc)

lemma foldl_jadd_foldr: "foldl jadd (Fin 0) rs = foldr jadd rs (Fin 0)"
proof (induction rs)
  case Nil
  show ?case by simp
next
  case (Cons r rs)
  have "foldl jadd (Fin 0) (r # rs) = foldl jadd (jadd r (Fin 0)) rs"
    by (simp add: jadd_commute)
  also have "\<dots> = jadd r (foldl jadd (Fin 0) rs)"
    by (rule foldl_jadd_shift)
  finally show ?case using Cons.IH by simp
qed

lemma foldl_jadd_Fin: "foldl jadd (Fin a) (map Fin xs) = Fin (a + sum_list xs)"
  by (induction xs arbitrary: a) (simp_all add: add.assoc)

lemma calculateAverage_mean: "fst (calculateAverage h s) = arithmetic_mean (returns_of h s)"
  by (simp add: calculateAverage_def arithmetic_mean_def Let_def foldl_jadd_foldr)

lemma calculateAverage_stored:
  "average (objs (snd (calculateAverage h s)) s) = fst (calculateAverage h s)"
  by (simp add: calculateAverage_def Let_def)

lemma calculateAverage_returns:
  "returns_of (snd (calculateAverage h s)) r = returns_of h r"
  by (simp add: calculateAverage_def Let_def returns_of_def)

lemma mean_of_reals:
  assumes "xs \<noteq> []"
  shows "arithmetic_mean (map Fin xs) = Fin (sum_list xs / real (length xs))"
proof -
  have "foldr jadd (map Fin xs) (Fin 0) = Fin (sum_list xs)"
    using foldl_jadd_Fin [of 0 xs] by (simp add: foldl_jadd_foldr)
  moreover have "real (length xs) \<noteq> 0" using assms by simp
  ultimately show ?thesis by (simp add: arithmetic_mean_def)
qed

section \<open>Dictionaries and the weight loop\<close>

lemma set_Object_entries: "set (Object_entries ps) = set ps"
  by (auto simp: Object_entries_def)

lemma set_members: "set (members p) = snd ` set (stocks p)"
  by (simp add: members_def set_Object_entries)

lemma own_property_obj_set:
  "own_property (obj_set k v ps) k' = (if k' = k then Some v else own_property ps k')"
  by (induction ps) (auto simp: own_property_def)

lemma stocks_get_stocks_set: "stocks_get h (stocks_set p k m) k = Stock_object m"
  by (simp add: stocks_get_def stocks_set_def own_property_obj_set)

lemma obj_set_member: "(k, v) \<in> set (obj_set k v ps)"
  by (induction ps) auto

lemma set_obj_set: "set (obj_set k v ps) \<subseteq> insert (k, v) (set ps)"
  by (induction ps) auto

lemma keys_obj_set:
  "map fst (obj_set k v ps) = (if k \<in> fst ` set ps then map fst ps else map fst ps @ [k])"
  by (induction ps) auto

lemma obj_delete_absent: "own_property ps k = None \<Longrightarrow> obj_delete k ps = ps"
  by (induction ps) (auto simp: own_property_def obj_delete_def split: if_splits)

subsection \<open>The weight loop\<close>

lemma set_weight_objs:
  "objs (foldl (set_weight t) h rs) r =
     (if r \<in> set rs
      then (objs h r)\<lparr>weight := Some (jdiv (to_number (value_stock (objs h r))) t)\<rparr>
      else objs h r)"
  by (induction rs arbitrary: h) (auto simp: set_weight_def)

lemma set_weight_rest:
  "arrs (foldl (set_weight t) h rs) = arrs h"
  "next_obj (foldl (set_weight t) h rs) = next_obj h"
  "next_arr (foldl (set_weight t) h rs) = next_arr h"
  by (induction rs arbitrary: h) (auto simp: set_weight_def)

lemma calculateWeights_portfolio:
  "snd (calculateWeights h p) = p\<lparr>value_portfolio := fst (calculateTotalValue h p)\<rparr>"
  by (simp add: calculateWeights_def calculateTotalValue_def Let_def)

lemma calculateWeights_heap:
  "fst (calculateWeights h p) =
     foldl (set_weight (fst (calculateTotalValue h p))) h (members p)"
  by (simp add: calculateWeights_def calculateTotalValue_def Let_def)

lemma calculateWeights_members: "members (snd (calculateWeights h p)) = members p"
  by (simp add: calculateWeights_portfolio members_def)

lemma calculateWeights_value:
  "value_stock (objs (fst (calculateWeights h p)) r) = value_stock (objs h r)"
  by (simp add: calculateWeights_heap set_weight_objs)

lemma calculateWeights_weight:
  "r \<in> set (members p) \<Longrightarrow>
   weight (objs (fst (calculateWeights h p)) r) =
     Some (jdiv (to_number (value_stock (objs h r))) (value_portfolio (snd (calculateWeights h p))))"
  by (simp add: calculateWeights_heap calculateWeights_portfolio set_weight_objs)

lemma finite_values_reals:
  "list_all (\<lambda>r. is_finite (f r)) rs \<Longrightarrow> \<exists>xs. map f rs = map Fin xs"
proof (induction rs)
  case Nil
  show ?case by simp
next
  case (Cons r rs)
  then obtain xs where xs: "map f rs = map Fin xs" by auto
  from Cons.prems obtain x where "f r = Fin x" by (cases "f r") auto
  with xs have "map f (r # rs) = map Fin (x # xs)" by simp
  then show ?case by blast
qed

lemma sum_list_divide: "sum_list (map (\<lambda>x. x / t) xs) = sum_list xs / (t::real)"
  by (induction xs) (simp_all add: add_divide_distrib)

lemma total_value_fold:
  "fst (calculateTotalValue h p) =
     foldl jadd (Fin 0) (map (\<lambda>r. to_number (value_stock (objs h r))) (members p))"
  by (simp add: calculateTotalValue_def Let_def foldl_map)

lemma calculateWeights_sum:
  assumes fin: "values_finite h p"
    and pos: "jlt (Fin 0) (value_portfolio (snd (calculateWeights h p)))"
  shows "weight_sum (fst (calculateWeights h p)) (snd (calculateWeights h p)) = Fin 1"
proof -
  let ?v = "\<lambda>r. to_number (value_stock (objs h r))"
  obtain xs where xs: "map ?v (members p) = map Fin xs"
    using finite_values_reals [of ?v "members p"] fin by (auto simp: values_finite_def)
  have tot: "value_portfolio (snd (calculateWeights h p)) = Fin (sum_list xs)"
    using foldl_jadd_Fin [of 0 xs] by (simp add: calculateWeights_portfolio total_value_fold xs)
  with pos have nz: "sum_list xs \<noteq> 0" by auto
  have "map (\<lambda>r. to_number (weight (objs (fst (calculateWeights h p)) r))) (members p)
        = map (\<lambda>r. jdiv (?v r) (Fin (sum_list xs))) (members p)"
    by (rule map_cong) (simp_all add: calculateWeights_weight tot)
  also have "\<dots> = map (\<lambda>a. jdiv a (Fin (sum_list xs))) (map ?v (members p))"
    by (simp add: o_def)
  also have "\<dots> = map Fin (map (\<lambda>x. x / sum_list xs) xs)"
    using nz by (simp add: xs o_def)
  finally have "weight_sum (fst (calculateWeights h p)) (snd (calculateWeights h p))
        = foldl jadd (Fin 0) (map Fin (map (\<lambda>x. x / sum_list xs) xs))"
    by (simp add: weight_sum_def calculateWeights_members)
  also have "\<dots> = Fin (sum_list xs / sum_list xs)"
    unfolding foldl_jadd_Fin sum_list_divide by simp
  finally show ?thesis using nz by simp
qed

lemma mutate_is_calculateWeights:
  "mutate h p m = Inr (h', p') \<Longrightarrow> \<exists>h0 p0. calculateWeights h0 p0 = (h', p')"
  by (cases m)
     (auto simp: addStock_def removeStock_def updateStock_def Let_def
           split: prod.splits looked_up.splits)

section \<open>Rounding to binary64: the error of a sum and of a quotient\<close>

lemma rne_error: "\<bar>of_int (rne y) - y\<bar> \<le> 1 / 2"
  unfolding rne_def Let_def by (auto; linarith)

lemma rne_of_int: "rne (of_int k) = k"
  by (simp add: rne_def)

lemma powr_two_int: "(2::real) powr (real_of_int j) = 2 powi j"
  by (simp add: powr_real_of_int')

lemma binade_bounds:
  assumes "x \<noteq> 0"
  shows "2 powi binade x \<le> \<bar>x\<bar>" and "\<bar>x\<bar> < 2 powi (binade x + 1)"
proof -
  have "0 < \<bar>x\<bar>" using assms by simp
  then have "2 powr (real_of_int (binade x)) \<le> \<bar>x\<bar> \<and> \<bar>x\<bar> < 2 powr (real_of_int (binade x) + 1)"
    using floor_log_eq_powr_iff [of "\<bar>x\<bar>" 2 "binade x"] by (simp add: binade_def)
  then show "2 powi binade x \<le> \<bar>x\<bar>" and "\<bar>x\<bar> < 2 powi (binade x + 1)"
    using powr_two_int [of "binade x"] powr_two_int [of "binade x + 1"] by simp_all
qed

lemma binade_eq:
  assumes "2 powi k \<le> \<bar>x\<bar>" "\<bar>x\<bar> < 2 powi (k + 1)"
  shows "binade x = k"
proof -
  have "0 < (2::real) powi k" by simp
  with assms(1) have "0 < \<bar>x\<bar>" by linarith
  moreover have "2 powr (real_of_int k) \<le> \<bar>x\<bar> \<and> \<bar>x\<bar> < 2 powr (real_of_int k + 1)"
    using assms powr_two_int [of k] powr_two_int [of "k + 1"] by simp
  ultimately show ?thesis
    using floor_log_eq_powr_iff [of "\<bar>x\<bar>" 2 k] by (simp add: binade_def)
qed

lemma round_real_error:
  "\<bar>round_real x - x\<bar> \<le> 2 powi exponent x / 2"
proof (cases "x = 0")
  case True
  then show ?thesis by (simp add: round_real_def)
next
  case False
  let ?p = "(2::real) powi exponent x"
  have p: "0 < ?p" by simp
  have "round_real x - x = ?p * (of_int (rne (x / ?p)) - x / ?p)"
    using False p by (simp add: round_real_def field_simps)
  then have "\<bar>round_real x - x\<bar> = ?p * \<bar>of_int (rne (x / ?p)) - x / ?p\<bar>"
    using p by (simp add: abs_mult)
  also have "\<dots> \<le> ?p * (1 / 2)"
    using p rne_error [of "x / ?p"] by (intro mult_left_mono) simp_all
  finally show ?thesis by simp
qed

lemma exponent_normal:
  assumes "2 powi (- 1022) \<le> \<bar>x\<bar>"
  shows "2 powi exponent x / 2 \<le> \<bar>x\<bar> * 2 powi (- 53)"
proof -
  have nz: "x \<noteq> 0" using assms by (auto simp: power_int_minus)
  have "(2::real) powi (- 1022) < 2 powi (binade x + 1)"
    using assms binade_bounds(2) [OF nz] by linarith
  then have "- 1022 < binade x + 1"
    using power_int_increasing [of "binade x + 1" "- 1022" "2::real"] by force
  then have e: "exponent x = binade x - 52" by (simp add: exponent_def)
  have "(2::real) powi (binade x - 52) / 2 = 2 powi binade x * 2 powi (- 53)"
    by (simp add: power_int_diff power_int_minus field_simps)
  also have "\<dots> \<le> \<bar>x\<bar> * 2 powi (- 53)"
    using binade_bounds(1) [OF nz] by (intro mult_right_mono) simp_all
  finally show ?thesis by (simp add: e)
qed

lemma exponent_subnormal:
  assumes "x \<noteq> 0" "\<bar>x\<bar> < 2 powi (- 1022)"
  shows "exponent x = - 1074"
proof -
  have "(2::real) powi binade x < 2 powi (- 1022)"
    using assms binade_bounds(1) [OF assms(1)] by linarith
  then have "binade x < - 1022"
    using power_int_increasing [of "- 1022" "binade x" "2::real"] by force
  then show ?thesis by (simp add: exponent_def)
qed

lemma on_gridI: "x = of_int k * 2 powi (- 1074) \<Longrightarrow> on_grid x"
  by (simp add: on_grid_def)

lemma on_gridE: "on_grid x \<Longrightarrow> \<exists>k. x = of_int k * 2 powi (- 1074)"
  unfolding on_grid_def  by (metis divide_eq_eq power_int_eq_0_iff zero_neq_numeral)

lemma round_real_on_grid: "on_grid (round_real x)"
proof (cases "x = 0")
  case True
  then show ?thesis by (simp add: round_real_def on_grid_def)
next
  case False
  have "0 \<le> exponent x + 1074" by (simp add: exponent_def)
  then have "(2::real) powi (exponent x + 1074) = of_int (2 ^ nat (exponent x + 1074))"
    by (simp add: power_int_def)
  moreover have "(2::real) powi exponent x = 2 powi (exponent x + 1074) * 2 powi (- 1074)"
    using power_int_add [of "2::real" "exponent x + 1074" "- 1074"] by simp
  ultimately have "round_real x
      = of_int (rne (x / 2 powi exponent x) * 2 ^ nat (exponent x + 1074)) * 2 powi (- 1074)"
    using False by (simp add: round_real_def)
  then show ?thesis by (rule on_gridI)
qed

lemma round_real_grid_exact:
  assumes "on_grid x" "\<bar>x\<bar> < 2 powi (- 1022)"
  shows "round_real x = x"
proof (cases "x = 0")
  case True
  then show ?thesis by (simp add: round_real_def)
next
  case False
  from assms(1) obtain k where k: "x = of_int k * 2 powi (- 1074)" using on_gridE by blast
  have e: "exponent x = - 1074" using False assms(2) by (rule exponent_subnormal)
  have q: "x / 2 powi (- 1074) = of_int k" by (simp add: k)
  have "round_real x = of_int (rne (x / 2 powi (- 1074))) * 2 powi (- 1074)"
    using False by (simp only: round_real_def e if_False)
  also have "\<dots> = of_int k * 2 powi (- 1074)"
    by (simp only: q rne_of_int)
  finally show ?thesis by (simp only: k)
qed

lemma on_grid_add: "on_grid a \<Longrightarrow> on_grid b \<Longrightarrow> on_grid (a + b)"
proof -
  assume "on_grid a" "on_grid b"
  then obtain k l where "a = of_int k * 2 powi (- 1074)" "b = of_int l * 2 powi (- 1074)"
    using on_gridE by blast
  then have "a + b = of_int (k + l) * 2 powi (- 1074)" by (simp add: algebra_simps)
  then show ?thesis by (rule on_gridI)
qed

lemma round_sum_error:
  assumes "on_grid a" "on_grid b"
  shows "\<bar>round_real (a + b) - (a + b)\<bar> \<le> \<bar>a + b\<bar> * 2 powi (- 53)"
proof (cases "2 powi (- 1022) \<le> \<bar>a + b\<bar>")
  case True
  then show ?thesis
    using round_real_error [of "a + b"] exponent_normal [of "a + b"] by linarith
next
  case False
  then have "round_real (a + b) = a + b"
    using on_grid_add [OF assms] by (intro round_real_grid_exact) simp_all
  then show ?thesis by simp
qed

lemma round_any_error:
  "\<bar>round_real x - x\<bar> \<le> \<bar>x\<bar> * 2 powi (- 53) + 2 powi (- 1075)"
proof (cases "2 powi (- 1022) \<le> \<bar>x\<bar>")
  case True
  have "(0::real) < 2 powi (- 1075)" by simp
  with True show ?thesis
    using round_real_error [of x] exponent_normal [of x] by linarith
next
  case False
  show ?thesis
  proof (cases "x = 0")
    case True
    then show ?thesis by (simp add: round_real_def)
  next
    case nz: False
    have "exponent x = - 1074" using nz False by (intro exponent_subnormal) simp_all
    then have "\<bar>round_real x - x\<bar> \<le> 2 powi (- 1074) / 2"
      using round_real_error [of x] by simp
    also have "(2::real) powi (- 1074) / 2 = 2 powi (- 1075)"
      by (simp add: power_int_minus)
    finally have "\<bar>round_real x - x\<bar> \<le> 2 powi (- 1075)" .
    moreover have "0 \<le> \<bar>x\<bar> * 2 powi (- 53)" by simp
    ultimately show ?thesis by linarith
  qed
qed

lemma fsum_Nil: "fsum a [] = a"
  by (simp add: fsum_def)

lemma fsum_Cons: "fsum a (x # xs) = fsum (round_real (a + x)) xs"
  by (simp add: fsum_def)

lemma unit_roundoff_bounds: "0 < unit_roundoff" "unit_roundoff < 1"
  by (simp_all add: unit_roundoff_def)

lemma round_sum_rel:
  assumes "on_grid a" "on_grid b" "0 \<le> a + b"
  shows "(a + b) * (1 - unit_roundoff) \<le> round_real (a + b)"
    and "round_real (a + b) \<le> (a + b) * (1 + unit_roundoff)"
proof -
  have "\<bar>round_real (a + b) - (a + b)\<bar> \<le> (a + b) * unit_roundoff"
    using round_sum_error [OF assms(1,2)] assms(3) by (simp only: unit_roundoff_def abs_of_nonneg)
  then show "(a + b) * (1 - unit_roundoff) \<le> round_real (a + b)"
    and "round_real (a + b) \<le> (a + b) * (1 + unit_roundoff)"
    by (simp_all add: algebra_simps abs_le_iff)
qed

lemma round_any_rel:
  assumes "0 \<le> x"
  shows "\<bar>round_real x - x\<bar> \<le> x * unit_roundoff + half_least"
  using round_any_error [of x] assms by (simp only: unit_roundoff_def half_least_def abs_of_nonneg)

lemma fsum_lower:
  assumes "on_grid a" "0 \<le> a" "\<forall>x\<in>set xs. 0 \<le> x \<and> on_grid x"
    and "real (length xs) * unit_roundoff \<le> 1"
  shows "(a + sum_list xs) * (1 - real (length xs) * unit_roundoff) \<le> fsum a xs"
  using assms
proof (induction xs arbitrary: a)
  case Nil
  then show ?case by (simp add: fsum_Nil)
next
  case (Cons x xs)
  define u where "u = unit_roundoff"
  define n where "n = real (length xs)"
  define A where "A = a + x"
  define \<Sigma> where "\<Sigma> = sum_list xs"
  define a' where "a' = round_real (a + x)"
  have u: "0 < u" "u < 1" using unit_roundoff_bounds by (simp_all add: u_def)
  have x: "0 \<le> x" "on_grid x" using Cons.prems(3) by simp_all
  have A: "0 \<le> A" using x Cons.prems(2) by (simp add: A_def)
  have S: "0 \<le> \<Sigma>" unfolding \<Sigma>_def using Cons.prems(3) by (intro sum_list_nonneg) simp
  have n: "0 \<le> n" by (simp add: n_def)
  have nu: "(n + 1) * u \<le> 1" using Cons.prems(4) by (simp add: n_def u_def algebra_simps)
  have nu': "n * u \<le> 1" using nu u by (simp add: algebra_simps)
  have lo: "A * (1 - u) \<le> a'"
    using round_sum_rel(1) [OF Cons.prems(1) x(2)] A by (simp add: A_def a'_def u_def)
  have "0 \<le> A * (1 - u)" using A u by simp
  with lo have a'0: "0 \<le> a'" by linarith
  have g: "on_grid a'" by (simp add: a'_def round_real_on_grid)
  have "(a' + \<Sigma>) * (1 - n * u) \<le> fsum a' xs"
    using Cons.IH [OF g a'0] Cons.prems(3) nu' by (simp add: n_def u_def \<Sigma>_def)
  moreover have "(A * (1 - u) + \<Sigma>) * (1 - n * u) \<le> (a' + \<Sigma>) * (1 - n * u)"
    using lo nu' by (intro mult_right_mono) simp_all
  moreover have "(A + \<Sigma>) * (1 - (n + 1) * u) \<le> (A * (1 - u) + \<Sigma>) * (1 - n * u)"
  proof -
    have "(A * (1 - u) + \<Sigma>) * (1 - n * u) - (A + \<Sigma>) * (1 - (n + 1) * u)
          = A * u * (n * u) + \<Sigma> * u"
      by (simp add: algebra_simps)
    moreover have "0 \<le> A * u * (n * u) + \<Sigma> * u"
      using A S n u by simp
    ultimately show ?thesis by linarith
  qed
  ultimately have "(A + \<Sigma>) * (1 - (n + 1) * u) \<le> fsum a' xs" by linarith
  then show ?case
    by (simp add: fsum_Cons A_def \<Sigma>_def n_def u_def a'_def algebra_simps)
qed

lemma fsum_upper:
  assumes "on_grid a" "0 \<le> a" "\<forall>x\<in>set xs. 0 \<le> x \<and> on_grid x"
    and "2 * real (length xs) * unit_roundoff \<le> 1"
  shows "fsum a xs \<le> (a + sum_list xs) * (1 + 2 * real (length xs) * unit_roundoff)"
  using assms
proof (induction xs arbitrary: a)
  case Nil
  then show ?case by (simp add: fsum_Nil)
next
  case (Cons x xs)
  define u where "u = unit_roundoff"
  define n where "n = real (length xs)"
  define A where "A = a + x"
  define \<Sigma> where "\<Sigma> = sum_list xs"
  define a' where "a' = round_real (a + x)"
  have u: "0 < u" "u < 1" using unit_roundoff_bounds by (simp_all add: u_def)
  have x: "0 \<le> x" "on_grid x" using Cons.prems(3) by simp_all
  have A: "0 \<le> A" using x Cons.prems(2) by (simp add: A_def)
  have S: "0 \<le> \<Sigma>" unfolding \<Sigma>_def using Cons.prems(3) by (intro sum_list_nonneg) simp
  have n: "0 \<le> n" by (simp add: n_def)
  have nu: "2 * (n + 1) * u \<le> 1" using Cons.prems(4) by (simp add: n_def u_def algebra_simps)
  have nu': "2 * n * u \<le> 1" using nu u by (simp add: algebra_simps)
  have lo: "A * (1 - u) \<le> a'"
    using round_sum_rel(1) [OF Cons.prems(1) x(2)] A by (simp add: A_def a'_def u_def)
  have hi: "a' \<le> A * (1 + u)"
    using round_sum_rel(2) [OF Cons.prems(1) x(2)] A by (simp add: A_def a'_def u_def)
  have "0 \<le> A * (1 - u)" using A u by simp
  with lo have a'0: "0 \<le> a'" by linarith
  have g: "on_grid a'" by (simp add: a'_def round_real_on_grid)
  have k: "0 \<le> 1 + 2 * n * u" using n u by simp
  have "fsum a' xs \<le> (a' + \<Sigma>) * (1 + 2 * n * u)"
    using Cons.IH [OF g a'0] Cons.prems(3) nu' by (simp add: n_def u_def \<Sigma>_def)
  moreover have "(a' + \<Sigma>) * (1 + 2 * n * u) \<le> (A * (1 + u) + \<Sigma>) * (1 + 2 * n * u)"
    using hi k by (intro mult_right_mono) simp_all
  moreover have "(A * (1 + u) + \<Sigma>) * (1 + 2 * n * u) \<le> (A + \<Sigma>) * (1 + 2 * (n + 1) * u)"
  proof -
    have "(A + \<Sigma>) * (1 + 2 * (n + 1) * u) - (A * (1 + u) + \<Sigma>) * (1 + 2 * n * u)
          = A * u * (1 - 2 * n * u) + 2 * (\<Sigma> * u)"
      by (simp add: algebra_simps)
    moreover have "0 \<le> A * u * (1 - 2 * n * u) + 2 * (\<Sigma> * u)"
      using A S n u nu' by simp
    ultimately show ?thesis by linarith
  qed
  ultimately have "fsum a' xs \<le> (A + \<Sigma>) * (1 + 2 * (n + 1) * u)" by linarith
  then show ?case
    by (simp add: fsum_Cons A_def \<Sigma>_def n_def u_def a'_def algebra_simps)
qed

lemma member_le_sum_list_real:
  "\<forall>x\<in>set xs. (0::real) \<le> x \<Longrightarrow> y \<in> set xs \<Longrightarrow> y \<le> sum_list xs"
proof (induction xs)
  case Nil
  then show ?case by simp
next
  case (Cons x xs)
  have "0 \<le> sum_list xs" using Cons.prems(1) by (intro sum_list_nonneg) simp
  then show ?case using Cons by auto
qed

lemma sum_list_close:
  "\<forall>x\<in>set xs. \<bar>f x - g x\<bar> \<le> (h x :: real) \<Longrightarrow>
   \<bar>sum_list (map f xs) - sum_list (map g xs)\<bar> \<le> sum_list (map h xs)"
  by (induction xs) (simp, fastforce)

lemma sum_list_affine:
  "sum_list (map (\<lambda>x. x * c + d) xs) = sum_list xs * c + real (length xs) * (d::real)"
  by (induction xs) (simp_all add: algebra_simps)

lemma on_grid_zero: "on_grid 0"
  by (simp add: on_grid_def)

lemma weights_real_bound:
  assumes xs: "\<forall>x\<in>set xs. 0 \<le> x \<and> on_grid x"
    and T: "T = fsum 0 xs" "0 < T"
    and len: "real (length xs) \<le> 2 ^ 52"
  shows "\<forall>x\<in>set xs. x / T \<le> 2"
    and "\<bar>sum_list (map (\<lambda>x. round_real (x / T)) xs) - 1\<bar>
           \<le> (real (length xs) + 1) * (4 * unit_roundoff)"
proof -
  define u where "u = unit_roundoff"
  define \<eta> where "\<eta> = half_least"
  define n where "n = real (length xs)"
  define S where "S = sum_list xs"
  have u: "0 < u" "u < 1" using unit_roundoff_bounds by (simp_all add: u_def)
  have n0: "0 \<le> n" by (simp add: n_def)
  have S0: "0 \<le> S" unfolding S_def using xs by (intro sum_list_nonneg) simp
  have "2 * n * u \<le> 2 * 2 ^ 52 * u"
    using len u by (simp add: n_def)
  moreover have "2 * 2 ^ 52 * u = 1" by (simp add: u_def unit_roundoff_def)
  ultimately have nu: "2 * n * u \<le> 1" by linarith
  have "n * \<eta> \<le> 2 ^ 52 * \<eta>"
    using len by (intro mult_right_mono) (simp_all add: n_def \<eta>_def half_least_def)
  moreover have "(2::real) ^ 52 * \<eta> \<le> 2 * u"
    by (simp add: u_def \<eta>_def unit_roundoff_def half_least_def)
  ultimately have n\<eta>: "n * \<eta> \<le> 2 * u" by linarith
  have lower: "S * (1 - n * u) \<le> T"
    using fsum_lower [OF on_grid_zero _ xs] nu u unfolding T(1)
    by (simp add: S_def n_def u_def)
  have upper: "T \<le> S * (1 + 2 * n * u)"
    using fsum_upper [OF on_grid_zero _ xs] nu unfolding T(1)
    by (simp add: S_def n_def u_def)
  have "S * (1 / 2) \<le> S * (1 - n * u)"
    using S0 nu by (intro mult_left_mono) simp_all
  with lower have S2: "S \<le> 2 * T" by simp
  have Snu: "S * (n * u) \<le> 2 * T * (n * u)"
    using S2 n0 u by (intro mult_right_mono) simp_all
  have d: "\<bar>S - T\<bar> \<le> 4 * n * u * T"
    using lower upper Snu by (simp add: algebra_simps abs_le_iff)
  have "\<bar>S / T - 1\<bar> = \<bar>S - T\<bar> / T"
    using T(2) by (simp add: field_simps abs_divide flip: abs_of_pos)
  also have "\<dots> \<le> 4 * n * u * T / T"
    using d T(2) by (intro divide_right_mono) simp_all
  finally have q: "\<bar>S / T - 1\<bar> \<le> 4 * n * u" using T(2) by simp
  show le2: "\<forall>x\<in>set xs. x / T \<le> 2"
  proof
    fix x assume "x \<in> set xs"
    then have "x \<le> S" unfolding S_def using xs by (intro member_le_sum_list_real) simp_all
    with S2 have "x \<le> 2 * T" by simp
    then show "x / T \<le> 2" using T(2) by (simp add: field_simps)
  qed
  have "\<forall>x\<in>set xs. \<bar>round_real (x / T) - x / T\<bar> \<le> x / T * u + \<eta>"
  proof
    fix x assume "x \<in> set xs"
    then have "0 \<le> x / T" using xs T(2) by simp
    then show "\<bar>round_real (x / T) - x / T\<bar> \<le> x / T * u + \<eta>"
      unfolding u_def \<eta>_def by (rule round_any_rel)
  qed
  then have "\<bar>sum_list (map (\<lambda>x. round_real (x / T)) xs) - sum_list (map (\<lambda>x. x / T) xs)\<bar>
               \<le> sum_list (map (\<lambda>x. x / T * u + \<eta>) xs)"
    by (rule sum_list_close)
  also have "sum_list (map (\<lambda>x. x / T * u + \<eta>) xs) = S / T * u + n * \<eta>"
    using sum_list_affine [of u \<eta> "map (\<lambda>x. x / T) xs"]
    by (simp add: o_def sum_list_divide S_def n_def)
  finally have w: "\<bar>sum_list (map (\<lambda>x. round_real (x / T)) xs) - S / T\<bar> \<le> S / T * u + n * \<eta>"
    by (simp add: sum_list_divide S_def)
  have "S / T \<le> 2" using S2 T(2) by (simp add: field_simps)
  then have "S / T * u \<le> 2 * u" using u by (intro mult_right_mono) simp_all
  with w q n\<eta> have "\<bar>sum_list (map (\<lambda>x. round_real (x / T)) xs) - 1\<bar> \<le> 4 * u + 4 * n * u"
    by linarith
  then show "\<bar>sum_list (map (\<lambda>x. round_real (x / T)) xs) - 1\<bar>
           \<le> (real (length xs) + 1) * (4 * unit_roundoff)"
    by (simp add: n_def u_def algebra_simps)
qed

lemma round_num_not_finite: "\<not> is_finite z \<Longrightarrow> round_num z = z"
  by (cases z) simp_all

lemma dadd_not_finite: "\<not> is_finite z \<Longrightarrow> \<not> is_finite (foldl dadd z (map Fin xs))"
proof (induction xs arbitrary: z)
  case Nil
  then show ?case by simp
next
  case (Cons x xs)
  have "\<not> is_finite (dadd z (Fin x))"
    using Cons.prems by (cases z) (simp_all add: dadd_def)
  then show ?case using Cons.IH by simp
qed

lemma fl64_cases:
  obtains "fl64 x = Fin (round_real x)" "\<bar>round_real x\<bar> < 2 ^ 1024" | "\<not> is_finite (fl64 x)"
  by (cases "2 ^ 1024 \<le> \<bar>round_real x\<bar>") (simp_all add: fl64_def)

lemma fold_dadd_finite:
  "foldl dadd (Fin a) (map Fin xs) = Fin T \<Longrightarrow> T = fsum a xs"
proof (induction xs arbitrary: a)
  case Nil
  then show ?case by (simp add: fsum_Nil)
next
  case (Cons x xs)
  have d: "dadd (Fin a) (Fin x) = fl64 (a + x)" by (simp add: dadd_def)
  show ?case
  proof (rule fl64_cases [of "a + x"])
    assume "fl64 (a + x) = Fin (round_real (a + x))"
    then show ?thesis using Cons by (simp add: d fsum_Cons)
  next
    assume "\<not> is_finite (fl64 (a + x))"
    then have "\<not> is_finite (foldl dadd (Fin a) (map Fin (x # xs)))"
      using dadd_not_finite [of "fl64 (a + x)" xs] by (simp add: d)
    then show ?thesis using Cons.prems by simp
  qed
qed

lemma is_double_grid: "is_double v \<Longrightarrow> \<exists>x. v = Fin x \<and> on_grid x"
proof (cases v)
  case (Fin x)
  assume "is_double v"
  then have "fl64 x = Fin x" by (simp add: Fin)
  then have "round_real x = x" by (simp add: fl64_def split: if_splits)
  then have "on_grid x" using round_real_on_grid [of x] by simp
  then show ?thesis using Fin by simp
qed simp_all

lemma round_small:
  assumes "0 \<le> q" "q \<le> 2"
  shows "fl64 q = Fin (round_real q)"
proof -
  have "\<bar>round_real q - q\<bar> \<le> q * unit_roundoff + half_least"
    using assms(1) by (rule round_any_rel)
  moreover have "q * unit_roundoff \<le> 2 * 1"
    using assms unit_roundoff_bounds by (intro mult_mono) simp_all
  moreover have "half_least \<le> 1" by (simp add: half_least_def)
  ultimately have "\<bar>round_real q\<bar> \<le> 5" using assms by linarith
  moreover have "(5::real) < 2 ^ 1024" by simp
  ultimately show ?thesis by (simp add: fl64_def)
qed

lemma round_real_exact:
  assumes "x = of_int m * 2 powi k" "\<bar>m\<bar> < 2 ^ 53" "- 1074 \<le> k"
  shows "round_real x = x"
proof (cases "x = 0")
  case True
  then show ?thesis by (simp add: round_real_def)
next
  case False
  have "\<bar>x\<bar> = of_int \<bar>m\<bar> * 2 powi k" by (simp add: assms(1) abs_mult)
  also have "\<dots> < 2 ^ 53 * 2 powi k"
    using assms(2) by (intro mult_strict_right_mono) (simp_all flip: of_int_less_iff)
  also have "\<dots> = 2 powi (k + 53)"
    using power_int_add [of "2::real" k 53] by simp
  finally have "(2::real) powi binade x < 2 powi (k + 53)"
    using binade_bounds(1) [OF False] by linarith
  then have "binade x < k + 53"
    using power_int_increasing [of "k + 53" "binade x" "2::real"] by force
  then have le: "exponent x \<le> k" using assms(3) by (simp add: exponent_def)
  define d where "d = nat (k - exponent x)"
  define P where "P = (2::real) powi exponent x"
  have P: "P \<noteq> 0" by (simp add: P_def)
  have "k = int d + exponent x" using le by (simp add: d_def)
  then have "(2::real) powi k = 2 powi (int d + exponent x)" by simp
  also have "\<dots> = 2 ^ d * P"
    using power_int_add [of "2::real" "int d" "exponent x"] by (simp add: P_def)
  finally have p: "(2::real) powi k = 2 ^ d * P" .
  have xm: "x = of_int m * (2 ^ d * P)" using assms(1) by (simp only: p)
  have q: "x / P = of_int (m * 2 ^ d)"
    using P by (subst xm) simp
  have "round_real x = of_int (rne (x / P)) * P"
    using False by (simp only: round_real_def P_def if_False)
  also have "\<dots> = of_int (m * 2 ^ d) * P" by (simp only: q rne_of_int)
  also have "\<dots> = of_int m * (2 ^ d * P)" by simp
  also have "\<dots> = x" by (simp only: xm [symmetric])
  finally show ?thesis .
qed

lemma fl64_exact:
  assumes "x = of_int m * 2 powi k" "\<bar>m\<bar> < 2 ^ 53" "- 1074 \<le> k" "\<bar>x\<bar> < 2 ^ 1024"
  shows "fl64 x = Fin x"
  using round_real_exact [OF assms(1-3)] assms(4) by (simp add: fl64_def)

lemma fl64_int: "\<bar>k\<bar> < 2 ^ 53 \<Longrightarrow> fl64 (of_int k) = Fin (of_int k)"
proof (rule fl64_exact [of _ k 0])
  assume k: "\<bar>k\<bar> < 2 ^ 53"
  then have "\<bar>real_of_int k\<bar> < 2 ^ 53" by (simp flip: of_int_less_iff of_int_abs)
  also have "(2::real) ^ 53 < 2 ^ 1024" by simp
  finally show "\<bar>real_of_int k\<bar> < 2 ^ 1024" .
qed simp_all

section \<open>The weight loop in binary64 arithmetic\<close>

lemma set_weight_double_objs:
  "objs (foldl (set_weight_double t) h rs) r =
     (if r \<in> set rs
      then (objs h r)\<lparr>weight := Some (ddiv (to_number (value_stock (objs h r))) t)\<rparr>
      else objs h r)"
  by (induction rs arbitrary: h) (auto simp: set_weight_double_def)

lemma calculateWeights_double_portfolio:
  "snd (calculateWeights_double h p)
     = p\<lparr>value_portfolio := fst (calculateTotalValue_double h p)\<rparr>"
  by (simp add: calculateWeights_double_def calculateTotalValue_double_def Let_def)

lemma calculateWeights_double_heap:
  "fst (calculateWeights_double h p) =
     foldl (set_weight_double (fst (calculateTotalValue_double h p))) h (members p)"
  by (simp add: calculateWeights_double_def calculateTotalValue_double_def Let_def)

lemma calculateWeights_double_members:
  "members (snd (calculateWeights_double h p)) = members p"
  by (simp add: calculateWeights_double_portfolio members_def)

lemma calculateWeights_double_value:
  "value_stock (objs (fst (calculateWeights_double h p)) r) = value_stock (objs h r)"
  by (simp add: calculateWeights_double_heap set_weight_double_objs)

lemma calculateWeights_double_weight:
  "r \<in> set (members p) \<Longrightarrow>
   weight (objs (fst (calculateWeights_double h p)) r) =
     Some (ddiv (to_number (value_stock (objs h r)))
             (value_portfolio (snd (calculateWeights_double h p))))"
  by (simp add: calculateWeights_double_heap calculateWeights_double_portfolio
        set_weight_double_objs)

lemma total_value_double_fold:
  "fst (calculateTotalValue_double h p) =
     foldl dadd (Fin 0) (map (\<lambda>r. to_number (value_stock (objs h r))) (members p))"
  by (simp add: calculateTotalValue_double_def Let_def foldl_map)

lemma values_nonneg_doubles_calculateWeights:
  "values_nonneg_doubles (fst (calculateWeights_double h p)) (snd (calculateWeights_double h p))
     = values_nonneg_doubles h p"
  by (simp add: values_nonneg_doubles_def calculateWeights_double_value
        calculateWeights_double_members)

lemma mutate_double_is_calculateWeights:
  "mutate_double h p m = Inr (h', p') \<Longrightarrow> \<exists>h0 p0. calculateWeights_double h0 p0 = (h', p')"
  by (cases m)
     (auto simp: addStock_double_def removeStock_double_def updateStock_double_def Let_def
           split: prod.splits looked_up.splits)

lemma nonneg_doubles_reals:
  "list_all (\<lambda>r. is_double (f r) \<and> jle (Fin 0) (f r)) rs \<Longrightarrow>
   \<exists>xs. map f rs = map Fin xs \<and> (\<forall>x\<in>set xs. 0 \<le> x \<and> on_grid x)"
proof (induction rs)
  case Nil
  show ?case by simp
next
  case (Cons r rs)
  then obtain xs where xs: "map f rs = map Fin xs" "\<forall>x\<in>set xs. 0 \<le> x \<and> on_grid x"
    by auto
  from Cons.prems obtain x where x: "f r = Fin x" "on_grid x"
    using is_double_grid [of "f r"] by auto
  with Cons.prems have "0 \<le> x" by simp
  with xs x have "map f (r # rs) = map Fin (x # xs) \<and> (\<forall>y\<in>set (x # xs). 0 \<le> y \<and> on_grid y)"
    by simp
  then show ?case by blast
qed

lemma calculateWeights_double_sum:
  assumes dbl: "values_nonneg_doubles h p"
    and fin: "is_finite (value_portfolio (snd (calculateWeights_double h p)))"
    and pos: "jlt (Fin 0) (value_portfolio (snd (calculateWeights_double h p)))"
    and len: "length (members p) \<le> 2 ^ 52"
  shows "\<exists>s. weight_sum (fst (calculateWeights_double h p)) (snd (calculateWeights_double h p))
               = Fin s
            \<and> \<bar>s - 1\<bar> \<le> (real (length (members p)) + 1) / 2 ^ 51"
proof -
  let ?v = "\<lambda>r. to_number (value_stock (objs h r))"
  let ?h' = "fst (calculateWeights_double h p)"
  let ?p' = "snd (calculateWeights_double h p)"
  obtain xs where xs: "map ?v (members p) = map Fin xs"
    and nn: "\<forall>x\<in>set xs. 0 \<le> x \<and> on_grid x"
    using nonneg_doubles_reals [of ?v "members p"] dbl
    by (auto simp: values_nonneg_doubles_def)
  have n: "length xs = length (members p)"
    using arg_cong [OF xs, of length] by simp
  obtain T where T: "value_portfolio ?p' = Fin T"
    using fin by (cases "value_portfolio ?p'") simp_all
  have fold: "foldl dadd (Fin 0) (map Fin xs) = Fin T"
    using T by (simp add: calculateWeights_double_portfolio total_value_double_fold xs)
  then have Tsum: "T = fsum 0 xs" by (rule fold_dadd_finite)
  have T0: "0 < T" using pos by (simp add: T)
  have "real (length xs) \<le> real ((2::nat) ^ 52)"
    using len unfolding n by (rule iffD2 [OF of_nat_le_iff])
  then have len': "real (length xs) \<le> 2 ^ 52" by simp
  note b = weights_real_bound [OF nn Tsum T0 len']
  have "map (\<lambda>r. to_number (weight (objs ?h' r))) (members p)
        = map (\<lambda>r. ddiv (?v r) (Fin T)) (members p)"
    by (rule map_cong) (simp_all add: calculateWeights_double_weight T)
  also have "\<dots> = map (\<lambda>a. ddiv a (Fin T)) (map ?v (members p))"
    by (simp add: o_def)
  also have "\<dots> = map (\<lambda>x. ddiv (Fin x) (Fin T)) xs"
    by (simp add: xs o_def)
  also have "\<dots> = map (\<lambda>x. Fin (round_real (x / T))) xs"
  proof (rule map_cong)
    fix x assume x: "x \<in> set xs"
    then have "0 \<le> x / T" "x / T \<le> 2" using nn T0 b(1) by simp_all
    then have "fl64 (x / T) = Fin (round_real (x / T))" by (rule round_small)
    then show "ddiv (Fin x) (Fin T) = Fin (round_real (x / T))"
      using T0 by (simp add: ddiv_def)
  qed simp
  also have "\<dots> = map Fin (map (\<lambda>x. round_real (x / T)) xs)"
    by (simp add: o_def)
  finally have "weight_sum ?h' ?p'
        = foldl jadd (Fin 0) (map Fin (map (\<lambda>x. round_real (x / T)) xs))"
    by (simp add: weight_sum_def calculateWeights_double_members)
  then have s: "weight_sum ?h' ?p' = Fin (sum_list (map (\<lambda>x. round_real (x / T)) xs))"
    by (simp only: foldl_jadd_Fin add_0)
  have "(real (length xs) + 1) * (4 * unit_roundoff) = (real (length (members p)) + 1) / 2 ^ 51"
    by (simp add: unit_roundoff_def n)
  with b(2) have "\<bar>sum_list (map (\<lambda>x. round_real (x / T)) xs) - 1\<bar>
      \<le> (real (length (members p)) + 1) / 2 ^ 51"
    by simp
  with s show ?thesis by blast
qed

subsection \<open>Evaluation of the scenarios in binary64 arithmetic\<close>

lemmas double_defs =
  empty_heap_def Portfolio_def Stock_def
  addStock_double_def calculateWeights_double_def calculateTotalValue_double_def
  set_weight_double_def set_value_def stocks_set_def members_def
  Object_entries_def is_array_index_def is_digit_def
  weight_sum_def values_nonneg_doubles_def dadd_def ddiv_def Let_def

lemma fl64_values:
  "fl64 0 = Fin 0" "fl64 1 = Fin 1" "fl64 3 = Fin 3" "fl64 4 = Fin 4"
  "fl64 20 = Fin 20" "fl64 30 = Fin 30" "fl64 50 = Fin 50"
  using fl64_int [of 0] fl64_int [of 1] fl64_int [of 3] fl64_int [of 4]
    fl64_int [of 20] fl64_int [of 30] fl64_int [of 50]
  by simp_all

lemma fl64_powers:
  "fl64 9007199254740992 = Fin 9007199254740992"
  "fl64 (- 9007199254740992) = Fin (- 9007199254740992)"
  "fl64 2251799813685248 = Fin 2251799813685248"
  "fl64 (- 2251799813685248) = Fin (- 2251799813685248)"
  "fl64 (3 / 4) = Fin (3 / 4)"
  using fl64_exact [of 9007199254740992 4503599627370496 1]
    fl64_exact [of "- 9007199254740992" "- 4503599627370496" 1]
    fl64_int [of 2251799813685248] fl64_int [of "- 2251799813685248"]
    fl64_exact [of "3 / 4" 3 "- 2"]
  by simp_all

lemma fl64_tie: "fl64 9007199254740995 = Fin 9007199254740996"
proof -
  have b: "binade 9007199254740995 = 53" by (rule binade_eq) simp_all
  have "round_real 9007199254740995 = 9007199254740996"
    by (simp add: round_real_def exponent_def b rne_def)
  then show ?thesis by (simp add: fl64_def)
qed

lemma addStock_double_plain:
  "addStock_double h p s v None
     = calculateWeights_double (set_value h s v) (stocks_set p (ticker (objs h s)) s)"
  by (simp add: addStock_double_def Let_def)

lemma calculateWeights_double_ticker:
  "ticker (objs (fst (calculateWeights_double h p)) r) = ticker (objs h r)"
  by (simp add: calculateWeights_double_heap set_weight_double_objs)

lemma calculateWeights_double_stocks:
  "stocks (snd (calculateWeights_double h p)) = stocks p"
  "stocks_proto (snd (calculateWeights_double h p)) = stocks_proto p"
  by (simp_all add: calculateWeights_double_portfolio)

lemma calculateWeights_double_total:
  "value_portfolio (snd (calculateWeights_double h p))
     = foldl dadd (Fin 0) (map (\<lambda>r. to_number (value_stock (objs h r))) (members p))"
  by (simp add: calculateWeights_double_portfolio total_value_double_fold)

lemma addStock_double_ticker:
  "ticker (objs (fst (addStock_double h p s v None)) r) = ticker (objs h r)"
  by (simp add: addStock_double_plain calculateWeights_double_ticker set_value_def)

lemma addStock_double_value:
  "value_stock (objs (fst (addStock_double h p s v None)) r)
     = (if r = s then Some v else value_stock (objs h r))"
  by (simp add: addStock_double_plain calculateWeights_double_value set_value_def)

lemma addStock_double_stocks:
  "stocks (snd (addStock_double h p s v None))
     = stocks (stocks_set p (ticker (objs h s)) s)"
  by (simp add: addStock_double_plain calculateWeights_double_stocks)

lemma addStock_double_total:
  "value_portfolio (snd (addStock_double h p s v None))
     = foldl dadd (Fin 0)
         (map (\<lambda>r. to_number (value_stock (objs (fst (addStock_double h p s v None)) r)))
            (members (snd (addStock_double h p s v None))))"
  unfolding addStock_double_plain calculateWeights_double_total
    calculateWeights_double_value calculateWeights_double_members ..

lemma addStock_double_weight:
  assumes "r \<in> set (members (snd (addStock_double h p s v None)))"
  shows "weight (objs (fst (addStock_double h p s v None)) r)
     = Some (ddiv (to_number (value_stock (objs (fst (addStock_double h p s v None)) r)))
               (value_portfolio (snd (addStock_double h p s v None))))"
  using assms unfolding addStock_double_plain calculateWeights_double_members
    calculateWeights_double_value
  by (rule calculateWeights_double_weight)

lemma members_three: "members (p\<lparr>stocks := [(''a'', 0), (''b'', 1), (''c'', 2)]\<rparr>) = [0, 1, 2]"
  by (simp add: members_def Object_entries_def is_array_index_def is_digit_def)

lemma three_stocks_tickers:
  "ticker (objs three_stocks 0) = ''a''"
  "ticker (objs three_stocks (Suc 0)) = ''b''"
  "ticker (objs three_stocks 2) = ''c''"
  by (simp_all add: three_stocks_def Stock_def empty_heap_def)

lemma opposite_values_state:
  "stocks (snd opposite_values) = [(''a'', 0), (''b'', 1), (''c'', 2)]"
  "value_stock (objs (fst opposite_values) 0) = Some (Fin 9007199254740992)"
  "value_stock (objs (fst opposite_values) (Suc 0)) = Some (Fin 3)"
  "value_stock (objs (fst opposite_values) 2) = Some (Fin (- 9007199254740992))"
proof -
  define X1 where "X1 = addStock_double three_stocks Portfolio 0 (Fin 9007199254740992) None"
  define X2 where "X2 = addStock_double (fst X1) (snd X1) 1 (Fin 3) None"
  have X3: "opposite_values
      = addStock_double (fst X2) (snd X2) 2 (Fin (- 9007199254740992)) None"
    unfolding opposite_values_def X1_def X2_def Let_def case_prod_beta ..
  have s1: "stocks (snd X1) = [(''a'', 0)]"
    unfolding X1_def addStock_double_stocks
    by (simp add: three_stocks_tickers stocks_set_def Portfolio_def)
  have k1: "ticker (objs (fst X1) (Suc 0)) = ''b''" "ticker (objs (fst X1) 2) = ''c''"
    unfolding X1_def addStock_double_ticker by (simp_all add: three_stocks_tickers)
  have s2: "stocks (snd X2) = [(''a'', 0), (''b'', 1)]"
    unfolding X2_def addStock_double_stocks by (simp add: k1 stocks_set_def s1)
  have k2: "ticker (objs (fst X2) 2) = ''c''"
    unfolding X2_def addStock_double_ticker by (simp add: k1)
  show "stocks (snd opposite_values) = [(''a'', 0), (''b'', 1), (''c'', 2)]"
    unfolding X3 addStock_double_stocks by (simp add: k2 stocks_set_def s2)
  show "value_stock (objs (fst opposite_values) 0) = Some (Fin 9007199254740992)"
    unfolding X3 X2_def X1_def addStock_double_value by simp
  show "value_stock (objs (fst opposite_values) (Suc 0)) = Some (Fin 3)"
    unfolding X3 X2_def X1_def addStock_double_value by simp
  show "value_stock (objs (fst opposite_values) 2) = Some (Fin (- 9007199254740992))"
    unfolding X3 X2_def X1_def addStock_double_value by simp
qed

lemma opposite_values_members: "members (snd opposite_values) = [0, 1, 2]"
  by (simp add: members_def opposite_values_state(1) Object_entries_def is_array_index_def
        is_digit_def)

lemma opposite_values_total: "value_portfolio (snd opposite_values) = Fin 4"
proof -
  have eq: "opposite_values
      = addStock_double
          (fst (addStock_double
                 (fst (addStock_double three_stocks Portfolio 0 (Fin 9007199254740992) None))
                 (snd (addStock_double three_stocks Portfolio 0 (Fin 9007199254740992) None))
                 1 (Fin 3) None))
          (snd (addStock_double
                 (fst (addStock_double three_stocks Portfolio 0 (Fin 9007199254740992) None))
                 (snd (addStock_double three_stocks Portfolio 0 (Fin 9007199254740992) None))
                 1 (Fin 3) None))
          2 (Fin (- 9007199254740992)) None"
    unfolding opposite_values_def Let_def case_prod_beta ..
  have "value_portfolio (snd opposite_values)
      = foldl dadd (Fin 0)
          (map (\<lambda>r. to_number (value_stock (objs (fst opposite_values) r)))
             (members (snd opposite_values)))"
    unfolding eq by (rule addStock_double_total)
  then show ?thesis
    unfolding opposite_values_members
    by (simp add: opposite_values_state dadd_def fl64_values fl64_powers fl64_tie)
qed

lemma opposite_values_weight:
  assumes "r \<in> set (members (snd opposite_values))"
  shows "weight (objs (fst opposite_values) r)
     = Some (ddiv (to_number (value_stock (objs (fst opposite_values) r))) (Fin 4))"
proof -
  have eq: "opposite_values
      = addStock_double
          (fst (addStock_double
                 (fst (addStock_double three_stocks Portfolio 0 (Fin 9007199254740992) None))
                 (snd (addStock_double three_stocks Portfolio 0 (Fin 9007199254740992) None))
                 1 (Fin 3) None))
          (snd (addStock_double
                 (fst (addStock_double three_stocks Portfolio 0 (Fin 9007199254740992) None))
                 (snd (addStock_double three_stocks Portfolio 0 (Fin 9007199254740992) None))
                 1 (Fin 3) None))
          2 (Fin (- 9007199254740992)) None"
    unfolding opposite_values_def Let_def case_prod_beta ..
  have "weight (objs (fst opposite_values) r)
     = Some (ddiv (to_number (value_stock (objs (fst opposite_values) r)))
               (value_portfolio (snd opposite_values)))"
    using assms unfolding eq by (rule addStock_double_weight)
  then show ?thesis by (simp only: opposite_values_total)
qed

section \<open>The serialisation determines finite contents\<close>

lemma json_of_num_inj: "json_of_num a = json_of_num b \<Longrightarrow> is_finite b \<Longrightarrow> a = b"
  by (cases a; cases b) simp_all

lemma map_json_of_num_inj:
  "map json_of_num xs = map json_of_num ys \<Longrightarrow> list_all is_finite ys \<Longrightarrow> xs = ys"
proof (induction xs arbitrary: ys)
  case Nil
  then show ?case by simp
next
  case (Cons x xs)
  then obtain y ys' where ys: "ys = y # ys'" by (cases ys) auto
  with Cons.prems have "x = y" by (simp add: json_of_num_inj)
  moreover from Cons ys have "xs = ys'" by simp
  ultimately show ?case by (simp add: ys)
qed

lemma finite_to_number: "is_finite (to_number v) \<Longrightarrow> \<exists>x. v = Some (Fin x)"
  by (cases v; cases "to_number v") auto

lemma json_props_inj:
  assumes "json_prop ''value'' v @ json_prop ''weight'' w
           = json_prop ''value'' (Some (Fin x)) @ json_prop ''weight'' (Some (Fin y))"
  shows "w = Some (Fin y)"
proof (cases v)
  case None
  with assms show ?thesis by (cases w) simp_all
next
  case (Some a)
  with assms obtain b where w: "w = Some b" by (cases w) auto
  with assms Some have "json_of_num b = json_of_num (Fin y)" by simp
  then have "b = Fin y" by (rule json_of_num_inj) simp
  with w show ?thesis by simp
qed

lemma stock_json_content:
  assumes eq: "stock_json h r = stock_json h' r'" and fin: "finite_stock h' r'"
  shows "content h r = content h' r'"
proof -
  from fin obtain x y
    where v': "value_stock (objs h' r') = Some (Fin x)" and w': "weight (objs h' r') = Some (Fin y)"
    using finite_to_number unfolding finite_stock_def by blast
  from eq have rs: "map json_of_num (returns_of h r) = map json_of_num (returns_of h' r')"
    and av: "json_of_num (average (objs h r)) = json_of_num (average (objs h' r'))"
    and pr: "json_prop ''value'' (value_stock (objs h r)) @ json_prop ''weight'' (weight (objs h r))
             = json_prop ''value'' (Some (Fin x)) @ json_prop ''weight'' (Some (Fin y))"
    by (simp_all add: stock_json_def v' w')
  have "returns_of h r = returns_of h' r'"
    using rs fin by (simp add: map_json_of_num_inj finite_stock_def)
  moreover have "average (objs h r) = average (objs h' r')"
    using av fin by (simp add: json_of_num_inj finite_stock_def)
  moreover have "weight (objs h r) = weight (objs h' r')"
    using json_props_inj [OF pr] w' by simp
  ultimately show ?thesis by (simp add: content_def)
qed

subsection \<open>Lists related element by element\<close>

lemma map_eq_list_all2: "map f xs = map g ys \<Longrightarrow> list_all2 (\<lambda>x y. f x = g y) xs ys"
proof (induction xs arbitrary: ys)
  case Nil
  then show ?case by simp
next
  case (Cons x xs)
  then show ?case by (cases ys) auto
qed

lemma list_all2_map_eq: "list_all2 (\<lambda>x y. f x = g y) xs ys \<Longrightarrow> map f xs = map g ys"
  by (induction xs ys rule: list_all2_induct) simp_all

lemma list_all2_with_sets:
  "list_all2 R xs ys \<Longrightarrow> list_all2 (\<lambda>x y. R x y \<and> x \<in> set xs \<and> y \<in> set ys) xs ys"
  by (auto simp: list_all2_conv_all_nth)

subsection \<open>The risk is determined by keys and contents\<close>

lemma same_object_iff_same_key:
  assumes "wf_stocks h st" "pa \<in> set st" "pb \<in> set st"
  shows "(snd pa = snd pb) = (fst pa = fst pb)"
proof
  assume r: "snd pa = snd pb"
  from assms have "ticker (objs h (snd pa)) = fst pa" "ticker (objs h (snd pb)) = fst pb"
    by (simp_all add: wf_stocks_def)
  with r show "fst pa = fst pb" by simp
next
  assume k: "fst pa = fst pb"
  from assms(1) have "distinct (map fst st)" by (simp add: wf_stocks_def)
  moreover have "(fst pa, snd pa) \<in> set st"
    using assms(2) by simp
  moreover have "(fst pa, snd pb) \<in> set st"
    using assms(3) k by (metis prod.collapse)
  ultimately show "snd pa = snd pb" by (rule eq_key_imp_eq_value)
qed

lemma covariance_of_contents:
  assumes "(a = b) = (a' = b')" "content h a = content h' a'" "content h b = content h' b'"
  shows "calculateCovariance h a b = calculateCovariance h' a' b'"
proof (cases "a = b")
  case True
  then have "a' = b'" using assms(1) by simp
  with True show ?thesis by (simp add: calculateCovariance_def)
next
  case False
  then have ne: "a' \<noteq> b'" using assms(1) by simp
  from assms(2,3) have c: "returns_of h a = returns_of h' a'" "returns_of h b = returns_of h' b'"
      "average (objs h a) = average (objs h' a')" "average (objs h b) = average (objs h' b')"
    by (simp_all add: content_def)
  show ?thesis using False ne by (simp add: calculateCovariance_def c)
qed

lemma stringify_related:
  assumes eq: "stringify h st = stringify h' st'"
    and fin: "list_all (finite_stock h') (map snd (Object_entries st'))"
  shows "list_all2 (related h h') (Object_entries st) (Object_entries st')"
proof -
  let ?E = "Object_entries st" and ?E' = "Object_entries st'"
  from eq have "map (\<lambda>p. (fst p, stock_json h (snd p))) ?E
              = map (\<lambda>p. (fst p, stock_json h' (snd p))) ?E'"
    by (simp add: stringify_def)
  then have "list_all2 (\<lambda>p p'. (fst p, stock_json h (snd p)) = (fst p', stock_json h' (snd p')))
               ?E ?E'"
    by (rule map_eq_list_all2)
  then have big: "list_all2 (\<lambda>p p'. (fst p, stock_json h (snd p)) = (fst p', stock_json h' (snd p'))
                \<and> p \<in> set ?E \<and> p' \<in> set ?E') ?E ?E'"
    by (rule list_all2_with_sets)
  have f: "finite_stock h' (snd p')" if "p' \<in> set ?E'" for p'
    using fin that by (simp add: list_all_iff)
  have one: "related h h' p p'"
    if "(fst p, stock_json h (snd p)) = (fst p', stock_json h' (snd p'))
        \<and> p \<in> set ?E \<and> p' \<in> set ?E'" for p p'
  proof -
    have "content h (snd p) = content h' (snd p')"
      using that f [of p'] by (intro stock_json_content) simp_all
    with that show ?thesis by (simp add: related_def)
  qed
  from big show ?thesis by (rule list_all2_mono) (rule one)
qed

lemma related_weights:
  assumes "list_all2 (related h h') E E'"
  shows "map (\<lambda>r. weight (objs h r)) (map snd E) = map (\<lambda>r. weight (objs h' r)) (map snd E')"
proof -
  have "list_all2 (\<lambda>p p'. weight (objs h (snd p)) = weight (objs h' (snd p'))) E E'"
    using assms by (rule list_all2_mono) (simp add: related_def content_def)
  then show ?thesis by (simp add: list_all2_map_eq o_def)
qed

lemma related_covariances:
  assumes rel: "list_all2 (related h h') E E'"
    and wf: "wf_stocks h st" "wf_stocks h' st'"
    and sub: "set E \<subseteq> set st" "set E' \<subseteq> set st'"
  shows "map (\<lambda>a. map (\<lambda>b. calculateCovariance h a b) (map snd E)) (map snd E)
       = map (\<lambda>a. map (\<lambda>b. calculateCovariance h' a b) (map snd E')) (map snd E')"
proof -
  let ?R = "\<lambda>p p'. related h h' p p' \<and> p \<in> set E \<and> p' \<in> set E'"
  have R: "list_all2 ?R E E'" using rel by (rule list_all2_with_sets)
  have cell: "calculateCovariance h (snd pa) (snd pb) = calculateCovariance h' (snd pa') (snd pb')"
    if "?R pa pa'" "?R pb pb'" for pa pa' pb pb'
  proof (rule covariance_of_contents)
    have "(snd pa = snd pb) = (fst pa = fst pb)"
      using that sub wf(1) by (intro same_object_iff_same_key [of h st]) auto
    moreover have "(snd pa' = snd pb') = (fst pa' = fst pb')"
      using that sub wf(2) by (intro same_object_iff_same_key [of h' st']) auto
    ultimately show "(snd pa = snd pb) = (snd pa' = snd pb')"
      using that by (simp add: related_def)
    show "content h (snd pa) = content h' (snd pa')" using that by (simp add: related_def)
    show "content h (snd pb) = content h' (snd pb')" using that by (simp add: related_def)
  qed
  have row: "map (\<lambda>pb. calculateCovariance h (snd pa) (snd pb)) E
           = map (\<lambda>pb. calculateCovariance h' (snd pa') (snd pb)) E'"
    if "?R pa pa'" for pa pa'
  proof (rule list_all2_map_eq)
    from R show "list_all2 (\<lambda>pb pb'. calculateCovariance h (snd pa) (snd pb)
                                  = calculateCovariance h' (snd pa') (snd pb')) E E'"
      by (rule list_all2_mono) (rule cell [OF that])
  qed
  have "map (\<lambda>pa. map (\<lambda>pb. calculateCovariance h (snd pa) (snd pb)) E) E
      = map (\<lambda>pa. map (\<lambda>pb. calculateCovariance h' (snd pa) (snd pb)) E') E'"
  proof (rule list_all2_map_eq)
    from R show "list_all2 (\<lambda>pa pa'. map (\<lambda>pb. calculateCovariance h (snd pa) (snd pb)) E
                                  = map (\<lambda>pb. calculateCovariance h' (snd pa') (snd pb)) E') E E'"
      by (rule list_all2_mono) (rule row)
  qed
  then show ?thesis by (simp add: o_def)
qed

lemma risk_product_determined:
  assumes "wf_stocks h (stocks p)" "wf_stocks h' (stocks p')"
    and "members_finite h' p'"
    and "stringify h (stocks p) = stringify h' (stocks p')"
  shows "risk_product h p = risk_product h' p'"
proof -
  have rel: "list_all2 (related h h') (Object_entries (stocks p)) (Object_entries (stocks p'))"
    using assms(3,4) by (intro stringify_related) (simp_all add: members_finite_def members_def)
  have W: "createWeightMatrix h p = createWeightMatrix h' p'"
    using related_weights [OF rel] by (simp add: createWeightMatrix_def members_def)
  have C: "createCovarianceMatrix h p = createCovarianceMatrix h' p'"
    using related_covariances [OF rel assms(1,2)]
    by (simp add: createCovarianceMatrix_def members_def set_Object_entries)
  show ?thesis unfolding risk_product_def W C ..
qed

section \<open>Preservation of the invariants\<close>

lemma heap_ext_refl: "heap_ext h h"
  by (simp add: heap_ext_def)

lemma heap_ext_trans: "heap_ext h h1 \<Longrightarrow> heap_ext h1 h2 \<Longrightarrow> heap_ext h h2"
  by (auto simp: heap_ext_def)

lemma wf_stocks_ext: "wf_stocks h st \<Longrightarrow> heap_ext h h' \<Longrightarrow> wf_stocks h' st"
  by (fastforce simp: wf_stocks_def heap_ext_def)

lemma heap_ext_Stock: "heap_ext h (snd (Stock h t))"
  by (simp add: heap_ext_def Stock_def)

lemma heap_ext_calculateAverage: "heap_ext h (snd (calculateAverage h s))"
  by (simp add: heap_ext_def calculateAverage_def Let_def)

lemma heap_ext_push: "heap_ext h (push h s opn cls wait)"
  by (simp add: heap_ext_def push_def calculateAverage_def Let_def)

lemma heap_ext_set_value: "heap_ext h (set_value h r v)"
  by (simp add: heap_ext_def set_value_def)

lemma heap_ext_calculateWeights: "heap_ext h (fst (calculateWeights h p))"
  by (simp add: heap_ext_def calculateWeights_heap set_weight_objs set_weight_rest)

lemma clone_stock_ref: "fst (clone_stock h s) = next_obj h"
  by (simp add: clone_stock_def Stock_def Let_def)

lemma clone_stock_next: "next_obj (snd (clone_stock h s)) = next_obj h + 1"
  by (simp add: clone_stock_def Stock_def Let_def)

lemma clone_stock_ticker:
  "ticker (objs (snd (clone_stock h s)) (next_obj h)) = ticker (objs (snd (clone_stock h s)) s)"
  by (simp add: clone_stock_def Stock_def Let_def)

lemma heap_ext_clone_stock: "heap_ext h (snd (clone_stock h s))"
  by (simp add: heap_ext_def clone_stock_def Stock_def Let_def)

lemma wf_stocks_obj_set:
  assumes "wf_stocks h st" "m < next_obj h" "ticker (objs h m) = k"
  shows "wf_stocks h (obj_set k m st)"
proof -
  have "distinct (map fst (obj_set k m st))"
    using assms(1) by (simp add: keys_obj_set wf_stocks_def)
  moreover have "snd p < next_obj h \<and> ticker (objs h (snd p)) = fst p"
    if "p \<in> set (obj_set k m st)" for p
    using that set_obj_set [of k m st] assms by (auto simp: wf_stocks_def)
  ultimately show ?thesis by (simp add: wf_stocks_def)
qed

lemma wf_stocks_obj_delete: "wf_stocks h st \<Longrightarrow> wf_stocks h (obj_delete k st)"
  by (simp add: wf_stocks_def obj_delete_def distinct_map_filter)

lemma addStock_heap_ext: "heap_ext h (fst (addStock h p s v clone))"
proof (cases "clone = Some True")
  case True
  have "heap_ext h (set_value (snd (clone_stock h s)) (fst (clone_stock h s)) v)"
    using heap_ext_clone_stock heap_ext_set_value by (rule heap_ext_trans)
  then show ?thesis
    using True heap_ext_calculateWeights
    by (auto simp: addStock_def Let_def split: prod.splits intro: heap_ext_trans)
next
  case False
  then show ?thesis
    using heap_ext_trans [OF heap_ext_set_value heap_ext_calculateWeights]
    by (simp add: addStock_def Let_def)
qed

lemma addStock_stocks:
  "stocks (snd (addStock h p s v clone)) =
     (if clone = Some True
      then stocks (stocks_set p (ticker (objs (snd (clone_stock h s)) s)) (next_obj h))
      else stocks (stocks_set p (ticker (objs h s)) s))"
  using clone_stock_ref [of h s]
  by (auto simp: addStock_def Let_def calculateWeights_portfolio split: prod.splits)

lemma wf_stocks_stocks_set:
  assumes "wf_stocks h (stocks p)" "m < next_obj h" "ticker (objs h m) = k"
  shows "wf_stocks h (stocks (stocks_set p k m))"
  using assms wf_stocks_obj_set [of h "stocks p" m k] by (simp add: stocks_set_def)

lemma addStock_wf_stocks:
  assumes "wf_stocks h (stocks p)" "s < next_obj h"
  shows "wf_stocks (fst (addStock h p s v clone)) (stocks (snd (addStock h p s v clone)))"
proof (cases "clone = Some True")
  case True
  let ?h1 = "snd (clone_stock h s)"
  have "wf_stocks ?h1 (stocks p)"
    using assms(1) heap_ext_clone_stock by (rule wf_stocks_ext)
  then have "wf_stocks ?h1 (stocks (stocks_set p (ticker (objs ?h1 s)) (next_obj h)))"
    by (rule wf_stocks_stocks_set) (simp_all add: clone_stock_next clone_stock_ticker)
  moreover have "heap_ext ?h1 (fst (addStock h p s v clone))"
    using True clone_stock_ref [of h s]
      heap_ext_trans [OF heap_ext_set_value heap_ext_calculateWeights]
    by (auto simp: addStock_def Let_def split: prod.splits)
  ultimately show ?thesis
    using True by (simp add: addStock_stocks wf_stocks_ext)
next
  case False
  have "wf_stocks h (stocks (stocks_set p (ticker (objs h s)) s))"
    using assms by (intro wf_stocks_stocks_set) simp_all
  then show ?thesis
    using False addStock_heap_ext [of h p s v clone] by (simp add: addStock_stocks wf_stocks_ext)
qed

lemma addStock_keeps:
  "cache (snd (addStock h p s v clone)) = cache p"
  "risk (snd (addStock h p s v clone)) = risk p"
  by (simp_all add: addStock_def stocks_set_def Let_def calculateWeights_portfolio
        split: prod.splits)

lemma value_ok_calculateTotalValue: "value_ok (snd (calculateTotalValue h p))"
  by (simp add: value_ok_def calculateTotalValue_def members_def Let_def)

lemma value_ok_calculateWeights: "value_ok (snd (calculateWeights h p))"
  using value_ok_calculateTotalValue [of h p]
  by (simp add: calculateWeights_portfolio calculateTotalValue_def Let_def)

lemma cache_ok_keeps: "cache_ok p \<Longrightarrow> cache p' = cache p \<Longrightarrow> risk p' = risk p \<Longrightarrow> cache_ok p'"
  by (simp add: cache_ok_def)

lemma cache_ok_calculateRisk:
  assumes "wf_stocks h (stocks p)" "cache_ok p" "calculateRisk h p = Inr (r, p')"
  shows "cache_ok p'"
proof (cases "jle (value_portfolio p) (Fin 0) \<or> cache p = Some (stringify h (stocks p))")
  case True
  with assms(3) have "p' = p" by (auto simp: calculateRisk_def Let_def split: if_splits)
  with assms(2) show ?thesis by simp
next
  case False
  with assms(3) have r: "risk_product h p = Inr r"
    and p': "p' = p\<lparr>cache := Some (stringify h (stocks p)), risk := r\<rparr>"
    by (auto simp: calculateRisk_def Let_def split: sum.splits)
  have "risk_product h' q = Inr r"
    if "wf_stocks h' (stocks q)" "members_finite h' q"
       "stringify h' (stocks q) = stringify h (stocks p)" for h' q
    using risk_product_determined [OF assms(1) that(1,2)] that(3) r by simp
  then show ?thesis by (simp add: cache_ok_def p')
qed

lemma calculateRisk_keeps:
  assumes "calculateRisk h p = Inr (r, p')"
  shows "stocks p' = stocks p \<and> value_portfolio p' = value_portfolio p"
  using assms by (auto simp: calculateRisk_def Let_def split: if_splits sum.splits)

lemma inv_init: "inv init"
  by (simp add: inv_def init_def Portfolio_def wf_stocks_def cache_ok_def value_ok_def
        members_def Object_entries_def)

lemma inv_heap_step:
  assumes "inv \<sigma>" "heap_ext (heap_of \<sigma>) h'"
  shows "inv (\<sigma>\<lparr>heap_of := h'\<rparr>)"
  using assms by (auto simp: inv_def intro: wf_stocks_ext)

lemma inv_put:
  assumes "inv \<sigma>" "heap_ext (heap_of \<sigma>) (fst hp)"
    and "wf_stocks (fst hp) (stocks (snd hp))" "cache_ok (snd hp)" "value_ok (snd hp)"
  shows "inv (put \<sigma> i hp)"
  using assms by (auto simp: inv_def put_def intro: wf_stocks_ext)

lemma removeStock_inv:
  assumes "wf_stocks h (stocks p)" "cache_ok p"
  shows "heap_ext h (fst (removeStock h p a))"
    and "wf_stocks (fst (removeStock h p a)) (stocks (snd (removeStock h p a)))"
    and "cache_ok (snd (removeStock h p a))"
    and "value_ok (snd (removeStock h p a))"
proof -
  show e: "heap_ext h (fst (removeStock h p a))"
    by (simp add: removeStock_def heap_ext_calculateWeights)
  have "wf_stocks h (obj_delete (ticker_of h a) (stocks p))"
    using assms(1) by (rule wf_stocks_obj_delete)
  then show "wf_stocks (fst (removeStock h p a)) (stocks (snd (removeStock h p a)))"
    using e by (simp add: removeStock_def calculateWeights_portfolio wf_stocks_ext)
  show "cache_ok (snd (removeStock h p a))"
    using assms(2) by (rule cache_ok_keeps) (simp_all add: removeStock_def calculateWeights_portfolio)
  show "value_ok (snd (removeStock h p a))"
    by (simp add: removeStock_def value_ok_calculateWeights)
qed

lemma updateStock_inv:
  assumes "wf_stocks h (stocks p)" "cache_ok p" "updateStock h p a v = Inr hp"
  shows "heap_ext h (fst hp)"
    and "wf_stocks (fst hp) (stocks (snd hp))"
    and "cache_ok (snd hp)"
    and "value_ok (snd hp)"
proof -
  from assms(3) obtain h0 where hp: "hp = calculateWeights h0 p" and h0: "heap_ext h h0"
    using heap_ext_set_value heap_ext_refl
    by (auto simp: updateStock_def split: looked_up.splits)
  show e: "heap_ext h (fst hp)"
    unfolding hp using h0 heap_ext_calculateWeights by (rule heap_ext_trans)
  show "wf_stocks (fst hp) (stocks (snd hp))"
    using assms(1) e by (simp add: hp calculateWeights_portfolio wf_stocks_ext)
  show "cache_ok (snd hp)"
    using assms(2) by (rule cache_ok_keeps) (simp_all add: hp calculateWeights_portfolio)
  show "value_ok (snd hp)"
    by (simp add: hp value_ok_calculateWeights)
qed

lemma step_inv:
  assumes "inv \<sigma>" "step x \<sigma> = Some \<sigma>'"
  shows "inv \<sigma>'"
proof -
  let ?h = "heap_of \<sigma>"
  have wf: "wf_stocks ?h (stocks (ports \<sigma> i))" and ck: "cache_ok (ports \<sigma> i)"
    and vk: "value_ok (ports \<sigma> i)" for i
    using assms(1) by (simp_all add: inv_def)
  show ?thesis
  proof (cases x)
    case (NewStock t)
    then show ?thesis
      using assms inv_heap_step [OF assms(1) heap_ext_Stock] by auto
  next
    case (Push s opn cls wait)
    then show ?thesis
      using assms inv_heap_step [OF assms(1) heap_ext_push] by (auto split: if_splits)
  next
    case (CalculateAverage s)
    then show ?thesis
      using assms inv_heap_step [OF assms(1) heap_ext_calculateAverage]
      by (auto split: if_splits)
  next
    case (AddStock i s v clone)
    with assms(2) have s: "s < next_obj ?h"
      and \<sigma>': "\<sigma>' = put \<sigma> i (addStock ?h (ports \<sigma> i) s v clone)"
      by (auto split: if_splits)
    show ?thesis
      unfolding \<sigma>'
    proof (rule inv_put [OF assms(1)])
      show "heap_ext ?h (fst (addStock ?h (ports \<sigma> i) s v clone))"
        by (rule addStock_heap_ext)
      show "wf_stocks (fst (addStock ?h (ports \<sigma> i) s v clone))
              (stocks (snd (addStock ?h (ports \<sigma> i) s v clone)))"
        using wf s by (rule addStock_wf_stocks)
      show "cache_ok (snd (addStock ?h (ports \<sigma> i) s v clone))"
        using ck by (rule cache_ok_keeps) (simp_all add: addStock_keeps)
      show "value_ok (snd (addStock ?h (ports \<sigma> i) s v clone))"
        by (auto simp: addStock_def Let_def value_ok_calculateWeights split: prod.splits)
    qed
  next
    case (RemoveStock i a)
    with assms(2) have "\<sigma>' = put \<sigma> i (removeStock ?h (ports \<sigma> i) a)"
      by (auto split: if_splits)
    then show ?thesis
      using inv_put [OF assms(1) removeStock_inv [OF wf ck]] by simp
  next
    case (UpdateStock i a v)
    show ?thesis
    proof (cases "updateStock ?h (ports \<sigma> i) a v")
      case (Inl err)
      with UpdateStock assms show ?thesis by (auto split: if_splits)
    next
      case (Inr hp)
      with UpdateStock assms(2) have "\<sigma>' = put \<sigma> i hp" by (auto split: if_splits)
      then show ?thesis
        using inv_put [OF assms(1) updateStock_inv [OF wf ck Inr]] by simp
    qed
  next
    case (CalculateTotalValue i)
    with assms(2)
    have \<sigma>': "\<sigma>' = put \<sigma> i (?h, snd (calculateTotalValue ?h (ports \<sigma> i)))" by simp
    show ?thesis
      unfolding \<sigma>'
    proof (rule inv_put [OF assms(1)])
      show "heap_ext ?h (fst (?h, snd (calculateTotalValue ?h (ports \<sigma> i))))"
        by (simp add: heap_ext_refl)
      show "wf_stocks (fst (?h, snd (calculateTotalValue ?h (ports \<sigma> i))))
              (stocks (snd (?h, snd (calculateTotalValue ?h (ports \<sigma> i)))))"
        using wf [of i] by (simp add: calculateTotalValue_def Let_def)
      show "cache_ok (snd (?h, snd (calculateTotalValue ?h (ports \<sigma> i))))"
        using ck by (rule cache_ok_keeps) (simp_all add: calculateTotalValue_def Let_def)
      show "value_ok (snd (?h, snd (calculateTotalValue ?h (ports \<sigma> i))))"
        by (simp add: value_ok_calculateTotalValue)
    qed
  next
    case (CalculateWeights i)
    with assms(2) have \<sigma>': "\<sigma>' = put \<sigma> i (calculateWeights ?h (ports \<sigma> i))" by simp
    show ?thesis
      unfolding \<sigma>'
    proof (rule inv_put [OF assms(1)])
      show e: "heap_ext ?h (fst (calculateWeights ?h (ports \<sigma> i)))"
        by (rule heap_ext_calculateWeights)
      show "wf_stocks (fst (calculateWeights ?h (ports \<sigma> i)))
              (stocks (snd (calculateWeights ?h (ports \<sigma> i))))"
        using wf [of i] e by (simp add: calculateWeights_portfolio wf_stocks_ext)
      show "cache_ok (snd (calculateWeights ?h (ports \<sigma> i)))"
        using ck by (rule cache_ok_keeps) (simp_all add: calculateWeights_portfolio)
      show "value_ok (snd (calculateWeights ?h (ports \<sigma> i)))"
        by (rule value_ok_calculateWeights)
    qed
  next
    case (CalculateRisk i)
    show ?thesis
    proof (cases "calculateRisk ?h (ports \<sigma> i)")
      case (Inl err)
      with CalculateRisk assms show ?thesis by auto
    next
      case (Inr rp)
      then have c: "calculateRisk ?h (ports \<sigma> i) = Inr (fst rp, snd rp)" by simp
      from Inr CalculateRisk assms(2) have \<sigma>': "\<sigma>' = put \<sigma> i (?h, snd rp)" by simp
      have k: "stocks (snd rp) = stocks (ports \<sigma> i)"
          "value_portfolio (snd rp) = value_portfolio (ports \<sigma> i)"
        using calculateRisk_keeps [OF c] by simp_all
      show ?thesis
        unfolding \<sigma>'
      proof (rule inv_put [OF assms(1)])
        show "heap_ext ?h (fst (?h, snd rp))" by (simp add: heap_ext_refl)
        show "wf_stocks (fst (?h, snd rp)) (stocks (snd (?h, snd rp)))"
          using wf [of i] by (simp add: k)
        show "cache_ok (snd (?h, snd rp))"
          using cache_ok_calculateRisk [OF wf ck c] by simp
        show "value_ok (snd (?h, snd rp))"
          using vk [of i] by (simp add: value_ok_def members_def k)
      qed
    qed
  qed
qed

lemma exec_inv: "inv \<sigma> \<Longrightarrow> exec prog \<sigma> = Some \<sigma>' \<Longrightarrow> inv \<sigma>'"
proof (induction prog arbitrary: \<sigma>)
  case Nil
  then show ?case by simp
next
  case (Cons x prog)
  then show ?case by (auto split: option.splits dest: step_inv)
qed

section \<open>The matrix work succeeds\<close>

lemma quadratic_defined:
  assumes "length row = Suc (length ws)" "\<forall>r \<in> set rows. length r = Suc (length ws)"
    "length rows = length ws"
  shows "\<exists>i. multiply (row # rows) ([w] # map (\<lambda>x. [x]) ws) = Some i
           \<and> (\<exists>q. multiply (transpose_m ([w] # map (\<lambda>x. [x]) ws)) i = Some q
                \<and> (\<exists>r. e q 1 1 = Some r))"
  using assms by (simp add: multiply_def transpose_m_def e_def column_def)

lemma risk_product_returns:
  assumes "members p \<noteq> []" "list_all (\<lambda>r. weight (objs h r) \<noteq> None) (members p)"
  shows "\<exists>r. risk_product h p = Inr r"
proof -
  from assms(1) obtain m ms where ms: "members p = m # ms" by (cases "members p") auto
  with assms(2) obtain w where w: "weight (objs h m) = Some w" by auto
  let ?ws = "map (\<lambda>r. to_number (weight (objs h r))) ms"
  let ?row = "map (calculateCovariance h m) (m # ms)"
  let ?rows = "map (\<lambda>a. map (calculateCovariance h a) (m # ms)) ms"
  have W: "createWeightMatrix h p = Inr ([w] # map (\<lambda>x. [x]) ?ws)"
    by (simp add: createWeightMatrix_def ms w o_def)
  have C: "createCovarianceMatrix h p = Inr (?row # ?rows)"
    by (simp add: createCovarianceMatrix_def ms)
  obtain i q r where "multiply (?row # ?rows) ([w] # map (\<lambda>x. [x]) ?ws) = Some i"
    "multiply (transpose_m ([w] # map (\<lambda>x. [x]) ?ws)) i = Some q" "e q 1 1 = Some r"
    using quadratic_defined [of ?row ?ws ?rows w] by auto
  then show ?thesis by (simp add: risk_product_def W C)
qed

section \<open>The stored total after a recompute\<close>

lemma value_current_calculateTotalValue: "value_current h (snd (calculateTotalValue h p))"
  by (simp add: value_current_def calculateTotalValue_def members_def Let_def)

lemma value_current_calculateWeights:
  "value_current (fst (calculateWeights h p)) (snd (calculateWeights h p))"
  by (simp add: value_current_def calculateWeights_portfolio total_value_fold
        calculateWeights_value members_def)

lemma recomputes_value_current:
  assumes "step m \<sigma> = Some \<sigma>'" "recomputes i m \<sigma>"
  shows "value_current (heap_of \<sigma>') (ports \<sigma>' i)"
proof (cases m)
  case (AddStock j s v clone)
  with assms show ?thesis
    using value_current_calculateWeights
    by (auto simp: put_def addStock_def Let_def split: if_splits prod.splits)
next
  case (RemoveStock j a)
  with assms show ?thesis
    using value_current_calculateWeights
    by (auto simp: put_def removeStock_def split: if_splits)
next
  case (UpdateStock j a v)
  with assms show ?thesis
    using value_current_calculateWeights
    by (auto simp: put_def updateStock_def split: if_splits looked_up.splits)
next
  case (CalculateWeights j)
  with assms show ?thesis
    using value_current_calculateWeights by (auto simp: put_def)
next
  case (CalculateTotalValue j)
  with assms show ?thesis
    using value_current_calculateTotalValue by (auto simp: put_def)
qed (use assms in auto)

lemma not_on_chain_undefined:
  assumes "own_property (stocks p) k = None" "\<not> on_prototype_chain h p k"
  shows "stocks_get h p k = Undefined"
  using assms
  by (auto simp: stocks_get_def on_prototype_chain_def inherited_def
           split: if_splits option.splits)

section \<open>A finite total has finite summands\<close>

lemma is_finite_jadd: "is_finite (jadd a b) \<Longrightarrow> is_finite a \<and> is_finite b"
  by (cases a; cases b) simp_all

lemma is_finite_foldl_jadd:
  "is_finite (foldl jadd a xs) \<Longrightarrow> is_finite a \<and> list_all is_finite xs"
proof (induction xs arbitrary: a)
  case Nil
  then show ?case by simp
next
  case (Cons x xs)
  then have "is_finite (jadd a x)" and "list_all is_finite xs" by simp_all
  then show ?case using is_finite_jadd [of a x] by simp
qed

lemma finite_total_values:
  assumes "is_finite (fst (calculateTotalValue h p))"
  shows "values_finite h p"
  using is_finite_foldl_jadd [of "Fin 0"
      "map (\<lambda>r. to_number (value_stock (objs h r))) (members p)"] assms
  by (simp add: total_value_fold values_finite_def list.pred_map o_def)

section \<open>Evaluation of the example programs\<close>

lemmas eval_defs =
  run_def init_def put_def empty_heap_def Portfolio_def
  Stock_def push_def calculateAverage_def returns_of_def tick_return_def jsub_def scale_inf_def
  addStock_def clone_stock_def removeStock_def updateStock_def set_value_def
  calculateWeights_def calculateTotalValue_def set_weight_def members_def
  own_property_def stocks_get_def stocks_set_def inherited_def stock_property_def
  Object_prototype_names_def value_current_def
  obj_delete_def Object_entries_def Object_keys_def is_array_index_def is_digit_def
  calculateCovariance_def createWeightMatrix_def createCovarianceMatrix_def
  risk_product_def calculateRisk_def returned_risk_def riskFresh_def
  multiply_def transpose_m_def column_def dot_def e_def
  stringify_def stock_json_def
  weight_sum_def values_finite_def members_finite_def finite_stock_def
  Let_def

lemma ia_exec: "exec intel_apple init = Some (run intel_apple)"
  by (simp add: intel_apple_def eval_defs)

lemma ia_returns:
  "returns_of (heap_of (run intel_apple)) 0 = [Fin 100, Fin 50, Fin (- 50)]"
  "returns_of (heap_of (run intel_apple)) 1 = [Fin 100, Fin 50]"
  by (simp_all add: intel_apple_def eval_defs)

lemma ia_averages:
  "average (objs (heap_of (run intel_apple)) 0) = Fin (100 / 3)"
  "average (objs (heap_of (run intel_apple)) 1) = Fin 75"
  by (simp_all add: intel_apple_def eval_defs)

lemma ia_total:
  "fst (calculateTotalValue (heap_of (run intel_apple)) (ports (run intel_apple) 0)) = Fin 50"
  by (simp add: intel_apple_def eval_defs)

lemma ia_weights:
  "map (\<lambda>r. weight (objs (heap_of (run intel_apple)) r)) (members (ports (run intel_apple) 0))
     = [Some (Fin 0.6), Some (Fin 0.4)]"
  by (simp add: intel_apple_def eval_defs)

lemma ia_covariance:
  "calculateCovariance (heap_of (run intel_apple)) 0 1 = Fin 1250"
  by (simp add: intel_apple_def eval_defs)

lemma ia_matrix:
  "createCovarianceMatrix (heap_of (run intel_apple)) (ports (run intel_apple) 0)
     = Inr [[Fin 1, Fin 1250], [Fin 1250, Fin 1]]"
  by (simp add: intel_apple_def eval_defs)

lemma ia_risk:
  "returned_risk (heap_of (run intel_apple)) (ports (run intel_apple) 0) = Inr (Fin 600.52)"
  by (simp add: intel_apple_def eval_defs)

lemma st_exec:
  "exec (same_text @ [replace_a]) init = Some (run (same_text @ [replace_a]))"
  by (simp add: same_text_def replace_a_def eval_defs)

lemma st_cached:
  "returned_risk (heap_of (run same_text)) (ports (run same_text) 0) = Inr NInf"
  by (simp add: same_text_def eval_defs)

lemma st_returned:
  "returned_risk (heap_of (run (same_text @ [replace_a]))) (ports (run (same_text @ [replace_a])) 0)
     = Inr NInf"
  by (simp add: same_text_def replace_a_def eval_defs)

lemma st_fresh:
  "riskFresh (heap_of (run (same_text @ [replace_a]))) (ports (run (same_text @ [replace_a])) 0)
     = Inr PInf"
  by (simp add: same_text_def replace_a_def eval_defs)

lemma sh_exec:
  "exec (shared @ [one_more_tick]) init = Some (run (shared @ [one_more_tick]))"
  by (simp add: shared_def one_more_tick_def eval_defs)

lemma sh_finite:
  "members_finite (heap_of (run (shared @ [one_more_tick])))
     (ports (run (shared @ [one_more_tick])) 0)"
  by (simp add: shared_def one_more_tick_def eval_defs)

lemma sh_returned:
  "returned_risk (heap_of (run (shared @ [one_more_tick])))
     (ports (run (shared @ [one_more_tick])) 0) = Inr (Fin 0)"
  by (simp add: shared_def one_more_tick_def eval_defs)

lemma sh_fresh:
  "riskFresh (heap_of (run (shared @ [one_more_tick])))
     (ports (run (shared @ [one_more_tick])) 0) = Inr (Fin 1)"
  by (simp add: shared_def one_more_tick_def eval_defs)

section \<open>The claims\<close>

text \<open>
  C1 (defect in the code). The claim: after \<open>addStock(s, v, true)\<close> the member holds a
  snapshot of the returns and the average of \<open>s\<close>, which a later \<open>s.push\<close> leaves
  unchanged. The code assigns \<open>copy.returns = stock.returns\<close>, the reference to the same
  array. In the program \<open>clone_then\<close> the copy (reference 1) has the returns \<open>[100]\<close> and
  the average 100; after one more \<open>push(20, 30)\<close> on the original, the copy's returns are
  \<open>[100, 50]\<close> while its average is still 100.
\<close>

theorem clone_shares_returns:
  "members (ports (run clone_then) 0) = [1]
   \<and> returns_of (heap_of (run clone_then)) 1 = [Fin 100]
   \<and> average (objs (heap_of (run clone_then)) 1) = Fin 100
   \<and> returns_of (heap_of (run (clone_then @ [Push 0 (Fin 20) (Fin 30) None]))) 1
       = [Fin 100, Fin 50]
   \<and> average (objs (heap_of (run (clone_then @ [Push 0 (Fin 20) (Fin 30) None]))) 1) = Fin 100"
  by (simp add: clone_then_def eval_defs)

text \<open>
  C2, as stated, fails in two ways. First, the serialisation writes \<open>Infinity\<close>,
  \<open>-Infinity\<close> and \<open>NaN\<close> all as \<open>null\<close>: in the program \<open>same_text\<close> the risk
  \<open>-Infinity\<close> is computed and cached; \<open>addStock\<close> then replaces member \<open>a\<close> by a stock
  whose first return is \<open>-Infinity\<close> instead of \<open>Infinity\<close>; the serialisation is the
  same text, so \<open>calculateRisk\<close> returns the cached \<open>-Infinity\<close>, while the risk of the
  new members is \<open>Infinity\<close>. Second, \<open>calculateRisk\<close> returns 0 by the stored total,
  which another portfolio that shares a stock does not keep up to date: in the program
  \<open>shared\<close> the stock has value \<open>-1\<close> when portfolio 0 stores its total and value 5
  afterwards; after one more \<open>push\<close> on it, with every number finite, portfolio 0
  returns 0 while the risk of its member, whose value is 5 and whose weight is 1, is 1.
\<close>

theorem stale_risk_after_addStock:
  "exec (same_text @ [replace_a]) init = Some (run (same_text @ [replace_a]))
   \<and> returned_risk (heap_of (run same_text)) (ports (run same_text) 0) = Inr NInf
   \<and> returned_risk (heap_of (run (same_text @ [replace_a])))
        (ports (run (same_text @ [replace_a])) 0) = Inr NInf
   \<and> riskFresh (heap_of (run (same_text @ [replace_a])))
        (ports (run (same_text @ [replace_a])) 0) = Inr PInf
   \<and> exec (shared @ [one_more_tick]) init = Some (run (shared @ [one_more_tick]))
   \<and> members_finite (heap_of (run (shared @ [one_more_tick])))
        (ports (run (shared @ [one_more_tick])) 0)
   \<and> returned_risk (heap_of (run (shared @ [one_more_tick])))
        (ports (run (shared @ [one_more_tick])) 0) = Inr (Fin 0)
   \<and> riskFresh (heap_of (run (shared @ [one_more_tick])))
        (ports (run (shared @ [one_more_tick])) 0) = Inr (Fin 1)"
  by (intro conjI st_exec st_cached st_returned st_fresh sh_exec sh_finite sh_returned sh_fresh)

text \<open>
  C2, amended. In every state \<open>\<sigma>\<close> a program reaches, after a further operation \<open>m\<close>
  that is an \<open>addStock\<close>, \<open>removeStock\<close> or \<open>updateStock\<close> on portfolio \<open>i\<close> (or another
  operation that recomputes its total), or after any other operation such as a \<open>push\<close>
  when the stored total of portfolio \<open>i\<close> is still the sum of its members' values: if
  every number the members then hold is finite, \<open>calculateRisk\<close> returns a risk, and it
  is the risk computed afresh from the current members.
\<close>

theorem risk_after_mutation_is_fresh:
  assumes "exec prog init = Some \<sigma>"
    and "step m \<sigma> = Some \<sigma>'"
    and "members_finite (heap_of \<sigma>') (ports \<sigma>' i)"
    and "recomputes i m \<sigma> \<or> value_current (heap_of \<sigma>') (ports \<sigma>' i)"
  shows "\<exists>r. returned_risk (heap_of \<sigma>') (ports \<sigma>' i) = Inr r
           \<and> riskFresh (heap_of \<sigma>') (ports \<sigma>' i) = Inr r"
proof -
  let ?h = "heap_of \<sigma>'" and ?p = "ports \<sigma>' i"
  have "inv \<sigma>'"
    using inv_init assms(1,2) by (blast intro: exec_inv step_inv)
  then have wf: "wf_stocks ?h (stocks ?p)" and ck: "cache_ok ?p" and vk: "value_ok ?p"
    by (simp_all add: inv_def)
  have "value_current ?h ?p"
    using assms(2,4) recomputes_value_current by blast
  then have vc: "fst (calculateTotalValue ?h ?p) = value_portfolio ?p"
    by (simp add: value_current_def)
  show ?thesis
  proof (cases "jle (value_portfolio ?p) (Fin 0)")
    case True
    then show ?thesis by (simp add: returned_risk_def calculateRisk_def riskFresh_def vc)
  next
    case False
    with vk have ne: "members ?p \<noteq> []" by (auto simp: value_ok_def)
    have "weight (objs ?h r) \<noteq> None" if "r \<in> set (members ?p)" for r
      using that assms(3) finite_to_number [of "weight (objs ?h r)"]
      by (auto simp: members_finite_def finite_stock_def list_all_iff)
    then have "list_all (\<lambda>r. weight (objs ?h r) \<noteq> None) (members ?p)"
      by (simp add: list_all_iff)
    with ne obtain r where r: "risk_product ?h ?p = Inr r"
      using risk_product_returns by blast
    have "returned_risk ?h ?p = Inr r"
    proof (cases "cache ?p = Some (stringify ?h (stocks ?p))")
      case True
      with ck wf assms(3) have "risk_product ?h ?p = Inr (risk ?p)"
        by (simp add: cache_ok_def)
      with r have "risk ?p = r" by simp
      with True False show ?thesis by (simp add: returned_risk_def calculateRisk_def)
    next
      case c: False
      with False r show ?thesis by (simp add: returned_risk_def calculateRisk_def)
    qed
    with False r show ?thesis by (simp add: riskFresh_def vc)
  qed
qed

theorem risk_after_mutation_is_fresh_witness:
  "exec cached init = Some (run cached)
   \<and> step revalue (run cached) = Some (run (cached @ [revalue]))
   \<and> members_finite (heap_of (run (cached @ [revalue]))) (ports (run (cached @ [revalue])) 0)
   \<and> recomputes 0 revalue (run cached)
   \<and> returned_risk (heap_of (run (cached @ [revalue]))) (ports (run (cached @ [revalue])) 0)
       = riskFresh (heap_of (run (cached @ [revalue]))) (ports (run (cached @ [revalue])) 0)
   \<and> riskFresh (heap_of (run (cached @ [revalue]))) (ports (run (cached @ [revalue])) 0)
       = Inr (Fin 625.5)
   \<and> step one_more_tick (run cached) = Some (run (cached @ [one_more_tick]))
   \<and> members_finite (heap_of (run (cached @ [one_more_tick])))
        (ports (run (cached @ [one_more_tick])) 0)
   \<and> value_current (heap_of (run (cached @ [one_more_tick])))
        (ports (run (cached @ [one_more_tick])) 0)
   \<and> returned_risk (heap_of (run (cached @ [one_more_tick])))
        (ports (run (cached @ [one_more_tick])) 0)
       = riskFresh (heap_of (run (cached @ [one_more_tick])))
           (ports (run (cached @ [one_more_tick])) 0)"
proof -
  have h1: "exec cached init = Some (run cached)"
    by (simp add: cached_def intel_apple_def eval_defs)
  have h2: "step revalue (run cached) = Some (run (cached @ [revalue]))"
    by (simp add: cached_def revalue_def intel_apple_def eval_defs)
  have h3: "members_finite (heap_of (run (cached @ [revalue])))
              (ports (run (cached @ [revalue])) 0)"
    by (simp add: cached_def revalue_def intel_apple_def eval_defs)
  have h4: "recomputes 0 revalue (run cached)"
    by (simp add: cached_def revalue_def intel_apple_def eval_defs)
  have v: "riskFresh (heap_of (run (cached @ [revalue]))) (ports (run (cached @ [revalue])) 0)
             = Inr (Fin 625.5)"
    by (simp add: cached_def revalue_def intel_apple_def eval_defs)
  have k2: "step one_more_tick (run cached) = Some (run (cached @ [one_more_tick]))"
    by (simp add: cached_def one_more_tick_def intel_apple_def eval_defs)
  have k3: "members_finite (heap_of (run (cached @ [one_more_tick])))
              (ports (run (cached @ [one_more_tick])) 0)"
    by (simp add: cached_def one_more_tick_def intel_apple_def eval_defs)
  have k4: "value_current (heap_of (run (cached @ [one_more_tick])))
              (ports (run (cached @ [one_more_tick])) 0)"
    by (simp add: cached_def one_more_tick_def intel_apple_def eval_defs)
  from risk_after_mutation_is_fresh [OF h1 h2 h3] h4
    risk_after_mutation_is_fresh [OF h1 k2 k3] k4 h1 h2 h3 v k2 k3
  show ?thesis by auto
qed

text \<open>
  C3. The scenario of the test suite, with exact arithmetic: the returns and averages of
  \<open>intel\<close> (reference 0) and \<open>apple\<close> (reference 1), the total value 50, the weights
  0.6 and 0.4, the covariance 1250, the covariance matrix and the risk 600.52.
\<close>

theorem intel_apple_scenario:
  "exec intel_apple init = Some (run intel_apple)
   \<and> returns_of (heap_of (run intel_apple)) 0 = [Fin 100, Fin 50, Fin (- 50)]
   \<and> average (objs (heap_of (run intel_apple)) 0) = Fin (100 / 3)
   \<and> returns_of (heap_of (run intel_apple)) 1 = [Fin 100, Fin 50]
   \<and> average (objs (heap_of (run intel_apple)) 1) = Fin 75
   \<and> fst (calculateTotalValue (heap_of (run intel_apple)) (ports (run intel_apple) 0)) = Fin 50
   \<and> map (\<lambda>r. weight (objs (heap_of (run intel_apple)) r)) (members (ports (run intel_apple) 0))
       = [Some (Fin 0.6), Some (Fin 0.4)]
   \<and> calculateCovariance (heap_of (run intel_apple)) 0 1 = Fin 1250
   \<and> createCovarianceMatrix (heap_of (run intel_apple)) (ports (run intel_apple) 0)
       = Inr [[Fin 1, Fin 1250], [Fin 1250, Fin 1]]
   \<and> returned_risk (heap_of (run intel_apple)) (ports (run intel_apple) 0) = Inr (Fin 600.52)"
  by (intro conjI ia_exec ia_returns ia_averages ia_total ia_weights ia_covariance ia_matrix
        ia_risk)

text \<open>
  C4. The covariance of a stock object with itself is exactly 1, whatever its returns
  and average are, also with fewer than two returns: the test is on the identity of the
  object.
\<close>

theorem covariance_same_object: "calculateCovariance h s s = Fin 1"
  by (simp add: calculateCovariance_def)

text \<open>
  C5, as stated, fails: two distinct stocks without any return have \<open>n = 0\<close>, the sum is
  0 and the divisor is \<open>-1\<close>, so the covariance is zero, a finite number, and nothing
  fails.
\<close>

theorem covariance_without_returns_is_zero:
  "min (length (returns_of (heap_of (run two_empty)) 0))
       (length (returns_of (heap_of (run two_empty)) 1)) \<le> 1
   \<and> calculateCovariance (heap_of (run two_empty)) 0 1 = Fin 0
   \<and> is_finite (calculateCovariance (heap_of (run two_empty)) 0 1)"
  by (simp add: two_empty_def eval_defs)

text \<open>
  C5, amended. For distinct stocks with \<open>n \<le> 1\<close>: when \<open>n = 1\<close> the division is by
  zero and the covariance is \<open>NaN\<close> or an infinity, never a finite number; when \<open>n = 0\<close>
  the covariance is zero.
\<close>

theorem covariance_few_returns:
  assumes "a \<noteq> b"
    and "min (length (returns_of h a)) (length (returns_of h b)) \<le> 1"
  shows "if min (length (returns_of h a)) (length (returns_of h b)) = 0
         then calculateCovariance h a b = Fin 0
         else \<not> is_finite (calculateCovariance h a b)"
proof (cases "min (length (returns_of h a)) (length (returns_of h b)) = 0")
  case True
  then show ?thesis using assms(1) by (simp add: calculateCovariance_def)
next
  case False
  then have "min (length (returns_of h a)) (length (returns_of h b)) = 1"
    using assms(2) by linarith
  then show ?thesis
    using assms(1) by (simp add: calculateCovariance_def Let_def jdiv_zero_not_finite)
qed

theorem covariance_few_returns_witness:
  "(0::nat) \<noteq> 1
   \<and> min (length (returns_of (heap_of (run two_empty)) 0))
         (length (returns_of (heap_of (run two_empty)) 1)) = 0
   \<and> calculateCovariance (heap_of (run two_empty)) 0 1 = Fin 0
   \<and> min (length (returns_of (heap_of (run one_tick)) 0))
         (length (returns_of (heap_of (run one_tick)) 1)) = 1
   \<and> \<not> is_finite (calculateCovariance (heap_of (run one_tick)) 0 1)"
proof -
  have a: "min (length (returns_of (heap_of (run two_empty)) 0))
               (length (returns_of (heap_of (run two_empty)) 1)) = 0"
    by (simp add: two_empty_def eval_defs)
  have b: "min (length (returns_of (heap_of (run one_tick)) 0))
               (length (returns_of (heap_of (run one_tick)) 1)) = 1"
    by (simp add: one_tick_def eval_defs)
  show ?thesis
    using covariance_few_returns [of 0 1 "heap_of (run two_empty)"]
      covariance_few_returns [of 0 1 "heap_of (run one_tick)"] a b
    by simp
qed

text \<open>
  C6, as stated, fails in two ways. A member whose market value is \<open>Infinity\<close> makes the
  total value \<open>Infinity\<close>, which is greater than 0, and its weight
  \<open>Infinity / Infinity\<close> is \<open>NaN\<close>. And with finite values of both signs the rounding
  of the total is not small against the total: for the values \<open>2^53\<close>, 3 and \<open>-2^53\<close>
  the sum \<open>2^53 + 3\<close> is rounded to \<open>2^53 + 4\<close>, the total is 4 where the values sum to
  3, the weights are \<open>2^51\<close>, \<open>3/4\<close> and \<open>-2^51\<close>, each of them exact, and they sum to
  \<open>3/4\<close>.
\<close>

theorem weights_do_not_sum_to_one:
  "jlt (Fin 0) (value_portfolio (snd infinite_value))
   \<and> weight_sum (fst infinite_value) (snd infinite_value) = NaN
   \<and> members (snd opposite_values) = [0, 1, 2]
   \<and> value_portfolio (snd opposite_values) = Fin 4
   \<and> weight (objs (fst opposite_values) 0) = Some (Fin 2251799813685248)
   \<and> weight (objs (fst opposite_values) 1) = Some (Fin (3 / 4))
   \<and> weight (objs (fst opposite_values) 2) = Some (Fin (- 2251799813685248))
   \<and> weight_sum (fst opposite_values) (snd opposite_values) = Fin (3 / 4)"
proof -
  have i: "jlt (Fin 0) (value_portfolio (snd infinite_value))"
    "weight_sum (fst infinite_value) (snd infinite_value) = NaN"
    by (simp_all add: infinite_value_def one_stock_def double_defs)
  have w: "weight (objs (fst opposite_values) 0) = Some (Fin 2251799813685248)"
    "weight (objs (fst opposite_values) (Suc 0)) = Some (Fin (3 / 4))"
    "weight (objs (fst opposite_values) 2) = Some (Fin (- 2251799813685248))"
    by (simp_all add: opposite_values_weight opposite_values_members opposite_values_state
          ddiv_def fl64_powers)
  have w1: "weight (objs (fst opposite_values) 1) = Some (Fin (3 / 4))"
    using w(2) by simp
  have s: "weight_sum (fst opposite_values) (snd opposite_values) = Fin (3 / 4)"
    by (simp add: weight_sum_def opposite_values_members w)
  show ?thesis
    by (rule conjI [OF i(1) conjI [OF i(2) conjI [OF opposite_values_members
          conjI [OF opposite_values_total conjI [OF w(1) conjI [OF w1 conjI [OF w(3) s]]]]]]])
qed

text \<open>
  C6, amended. In the state of a portfolio right after its own \<open>addStock\<close>,
  \<open>removeStock\<close> or \<open>updateStock\<close>, computed in binary64 arithmetic: when the value of
  every member is a finite double that is not negative, the total is finite and greater
  than 0, and there are at most \<open>2^52\<close> members, the sum of the weights (the sum
  itself, not rounded) is a finite number \<open>s\<close>, and it is 1 within the tolerance
  \<open>(n + 1) / 2^51\<close>, where \<open>n\<close> is the number of members.
\<close>

theorem weights_sum_within_tolerance:
  assumes "mutate_double h p m = Inr (h', p')"
    and "values_nonneg_doubles h' p'"
    and "is_finite (value_portfolio p')"
    and "jlt (Fin 0) (value_portfolio p')"
    and "length (members p') \<le> 2 ^ 52"
  shows "\<exists>s. weight_sum h' p' = Fin s
            \<and> \<bar>s - 1\<bar> \<le> (real (length (members p')) + 1) / 2 ^ 51"
proof -
  obtain h0 p0 where c: "calculateWeights_double h0 p0 = (h', p')"
    using mutate_double_is_calculateWeights [OF assms(1)] by blast
  have h': "h' = fst (calculateWeights_double h0 p0)"
    and p': "p' = snd (calculateWeights_double h0 p0)"
    by (simp_all add: c)
  have "values_nonneg_doubles h0 p0"
    using assms(2) unfolding h' p' by (simp only: values_nonneg_doubles_calculateWeights)
  moreover have "length (members p0) \<le> 2 ^ 52"
    using assms(5) unfolding p' by (simp only: calculateWeights_double_members)
  ultimately show ?thesis
    using calculateWeights_double_sum [of h0 p0] assms(3,4)
    unfolding h' p' by (simp only: calculateWeights_double_members)
qed

theorem weights_sum_within_tolerance_witness:
  "mutate_double (fst intel_added) (snd intel_added) add_apple
     = Inr (fst (addStock_double (fst intel_added) (snd intel_added) 1 (Fin 20) None),
            snd (addStock_double (fst intel_added) (snd intel_added) 1 (Fin 20) None))
   \<and> values_nonneg_doubles
        (fst (addStock_double (fst intel_added) (snd intel_added) 1 (Fin 20) None))
        (snd (addStock_double (fst intel_added) (snd intel_added) 1 (Fin 20) None))
   \<and> value_portfolio (snd (addStock_double (fst intel_added) (snd intel_added) 1 (Fin 20) None))
       = Fin 50
   \<and> members (snd (addStock_double (fst intel_added) (snd intel_added) 1 (Fin 20) None)) = [0, 1]
   \<and> (\<exists>s. weight_sum
              (fst (addStock_double (fst intel_added) (snd intel_added) 1 (Fin 20) None))
              (snd (addStock_double (fst intel_added) (snd intel_added) 1 (Fin 20) None)) = Fin s
          \<and> \<bar>s - 1\<bar> \<le> 3 / 2 ^ 51)"
proof -
  let ?h = "fst (addStock_double (fst intel_added) (snd intel_added) 1 (Fin 20) None)"
  let ?p = "snd (addStock_double (fst intel_added) (snd intel_added) 1 (Fin 20) None)"
  have a: "mutate_double (fst intel_added) (snd intel_added) add_apple = Inr (?h, ?p)"
    by (simp add: add_apple_def)
  have m: "members ?p = [0, 1]"
    by (simp add: intel_added_def two_stocks_def double_defs)
  have v: "values_nonneg_doubles ?h ?p"
    by (simp add: intel_added_def two_stocks_def double_defs fl64_values)
  have t: "value_portfolio ?p = Fin 50"
    by (simp add: intel_added_def two_stocks_def double_defs fl64_values)
  have f: "is_finite (value_portfolio ?p)" unfolding t by simp
  have j: "jlt (Fin 0) (value_portfolio ?p)" unfolding t by simp
  have l: "length (members ?p) \<le> 2 ^ 52" unfolding m by simp
  have "\<exists>s. weight_sum ?h ?p = Fin s \<and> \<bar>s - 1\<bar> \<le> (real (length (members ?p)) + 1) / 2 ^ 51"
    by (rule weights_sum_within_tolerance [OF a v f j l])
  then have e: "\<exists>s. weight_sum ?h ?p = Fin s \<and> \<bar>s - 1\<bar> \<le> 3 / 2 ^ 51"
    unfolding m by simp
  show ?thesis
    by (rule conjI [OF a conjI [OF v conjI [OF t conjI [OF m e]]]])
qed

text \<open>
  C7, as stated, fails: \<open>toString\<close> is not a member of a new portfolio, yet
  \<open>this.stocks['toString']\<close> is the function every object inherits, so \<open>updateStock\<close>
  assigns \<open>value\<close> on that function, recomputes the weights and returns without an
  error.
\<close>

theorem updateStock_inherited_name:
  "own_property (stocks Portfolio) (ticker_of empty_heap (ByTicker ''toString'')) = None
   \<and> updateStock empty_heap Portfolio (ByTicker ''toString'') (Fin 1)
       = Inr (calculateWeights empty_heap Portfolio)"
  by (simp add: updateStock_def stocks_get_def inherited_def own_property_def Portfolio_def
        Object_prototype_names_def)

text \<open>
  C7, amended. When the ticker (given as a string, or as the ticker of a stock object)
  is not a key of the portfolio, \<open>removeStock\<close> does not fail: it leaves the stocks as
  they are and recomputes the weights; and when, besides, the ticker names no property
  along the prototype chain of \<open>this.stocks\<close>, \<open>updateStock\<close> throws a \<open>TypeError\<close>.
\<close>

theorem update_fails_remove_recomputes:
  assumes "own_property (stocks p) (ticker_of h a) = None"
  shows "removeStock h p a = calculateWeights h p
       \<and> (\<not> on_prototype_chain h p (ticker_of h a) \<longrightarrow> updateStock h p a v = Inl TypeError)"
  using assms not_on_chain_undefined [of p "ticker_of h a" h]
  by (auto simp: updateStock_def removeStock_def obj_delete_absent)

theorem update_fails_remove_recomputes_witness:
  "own_property (stocks (ports (run intel_apple) 0))
     (ticker_of (heap_of (run intel_apple)) (ByTicker ''msft'')) = None
   \<and> \<not> on_prototype_chain (heap_of (run intel_apple)) (ports (run intel_apple) 0)
         (ticker_of (heap_of (run intel_apple)) (ByTicker ''msft''))
   \<and> updateStock (heap_of (run intel_apple)) (ports (run intel_apple) 0) (ByTicker ''msft'') (Fin 1)
       = Inl TypeError
   \<and> removeStock (heap_of (run intel_apple)) (ports (run intel_apple) 0) (ByTicker ''msft'')
       = calculateWeights (heap_of (run intel_apple)) (ports (run intel_apple) 0)"
proof -
  have a: "own_property (stocks (ports (run intel_apple) 0))
             (ticker_of (heap_of (run intel_apple)) (ByTicker ''msft'')) = None"
    by (simp add: intel_apple_def eval_defs)
  have b: "\<not> on_prototype_chain (heap_of (run intel_apple)) (ports (run intel_apple) 0)
               (ticker_of (heap_of (run intel_apple)) (ByTicker ''msft''))"
    by (simp add: intel_apple_def on_prototype_chain_def eval_defs)
  from update_fails_remove_recomputes [OF a] a b show ?thesis by simp
qed

text \<open>
  C8. For a stock with returns, \<open>calculateAverage\<close> returns and stores the arithmetic
  mean of the returns: the sum divided by the count, which for finite returns \<open>xs\<close> is
  \<open>sum_list xs / length xs\<close>. \<open>push(open, close)\<close> with \<open>wait\<close> absent or false appends
  \<open>(close - open) / open * 100\<close> and the stored average is then the mean of the extended
  returns.
\<close>

theorem average_is_mean:
  "(returns_of h s \<noteq> [] \<longrightarrow>
      fst (calculateAverage h s) = arithmetic_mean (returns_of h s)
      \<and> average (objs (snd (calculateAverage h s)) s) = arithmetic_mean (returns_of h s))
   \<and> (returns_of h s = map Fin xs \<and> xs \<noteq> [] \<longrightarrow>
        fst (calculateAverage h s) = Fin (sum_list xs / real (length xs)))
   \<and> (wait \<noteq> Some True \<longrightarrow>
        returns_of (push h s opn cls wait) s
          = returns_of h s @ [jmul (jdiv (jsub cls opn) opn) (Fin 100)]
        \<and> average (objs (push h s opn cls wait) s)
          = arithmetic_mean (returns_of h s @ [jmul (jdiv (jsub cls opn) opn) (Fin 100)]))"
proof (intro conjI impI)
  show "fst (calculateAverage h s) = arithmetic_mean (returns_of h s)"
    by (rule calculateAverage_mean)
  show "average (objs (snd (calculateAverage h s)) s) = arithmetic_mean (returns_of h s)"
    by (simp add: calculateAverage_stored calculateAverage_mean)
next
  assume "returns_of h s = map Fin xs \<and> xs \<noteq> []"
  then show "fst (calculateAverage h s) = Fin (sum_list xs / real (length xs))"
    by (simp add: calculateAverage_mean mean_of_reals)
next
  assume w: "wait \<noteq> Some True"
  let ?h1 = "h\<lparr>arrs := (arrs h)(returns (objs h s) :=
                 arrs h (returns (objs h s)) @ [tick_return opn cls])\<rparr>"
  have p: "push h s opn cls wait = snd (calculateAverage ?h1 s)"
    using w by (simp add: push_def Let_def)
  have r: "returns_of ?h1 s = returns_of h s @ [tick_return opn cls]"
    by (simp add: returns_of_def)
  show "returns_of (push h s opn cls wait) s
          = returns_of h s @ [jmul (jdiv (jsub cls opn) opn) (Fin 100)]"
    by (simp add: p calculateAverage_returns r [unfolded tick_return_def] tick_return_def)
  show "average (objs (push h s opn cls wait) s)
          = arithmetic_mean (returns_of h s @ [jmul (jdiv (jsub cls opn) opn) (Fin 100)])"
    by (simp add: p calculateAverage_stored calculateAverage_mean r [unfolded tick_return_def] tick_return_def)
qed

theorem average_is_mean_witness:
  "returns_of (heap_of (run intel_apple)) 0 \<noteq> []
   \<and> returns_of (heap_of (run intel_apple)) 0 = map Fin [100, 50, - 50]
   \<and> (None :: bool option) \<noteq> Some True
   \<and> fst (calculateAverage (heap_of (run intel_apple)) 0) = Fin (100 / 3)
   \<and> average (objs (snd (calculateAverage (heap_of (run intel_apple)) 0)) 0) = Fin (100 / 3)
   \<and> returns_of (push (heap_of (run intel_apple)) 0 (Fin 15) (Fin 30) None) 0
       = [Fin 100, Fin 50, Fin (- 50), Fin 100]
   \<and> average (objs (push (heap_of (run intel_apple)) 0 (Fin 15) (Fin 30) None) 0) = Fin 50"
proof -
  have a: "returns_of (heap_of (run intel_apple)) 0 = map Fin [100, 50, - 50]"
    by (simp add: intel_apple_def eval_defs)
  show ?thesis
    using average_is_mean [of "heap_of (run intel_apple)" 0 "[100, 50, - 50]" None
        "Fin 15" "Fin 30"] a
    by (simp add: arithmetic_mean_def jsub_def)
qed

text \<open>
  C9. For two distinct stock objects the covariance does not depend on the order of the
  arguments.
\<close>

theorem covariance_symmetric:
  "a \<noteq> b \<Longrightarrow> calculateCovariance h a b = calculateCovariance h b a"
  by (simp add: calculateCovariance_def Let_def min.commute jmul_commute)

theorem covariance_symmetric_witness:
  "(0::nat) \<noteq> 1
   \<and> calculateCovariance (heap_of (run intel_apple)) 0 1
       = calculateCovariance (heap_of (run intel_apple)) 1 0"
  using covariance_symmetric [of 0 1 "heap_of (run intel_apple)"] by simp

text \<open>
  C10, as stated, fails for a stock whose ticker is \<open>__proto__\<close>: the assignment
  \<open>this.stocks['__proto__'] = stock\<close> makes the stock the prototype of \<open>this.stocks\<close> and
  creates no property. The stock gets its \<open>value\<close>, but it is not a member, the total
  stays 0 and no \<open>weight\<close> is written on it.
\<close>

theorem addStock_proto_ticker:
  "exec proto_ticker init = Some (run proto_ticker)
   \<and> stocks (ports (run proto_ticker) 0) = []
   \<and> stocks_proto (ports (run proto_ticker) 0) = Some 0
   \<and> value_portfolio (ports (run proto_ticker) 0) = Fin 0
   \<and> value_stock (objs (heap_of (run proto_ticker)) 0) = Some (Fin 30)
   \<and> weight (objs (heap_of (run proto_ticker)) 0) = None"
  by (simp add: proto_ticker_def eval_defs)

text \<open>
  C10, amended. For a stock \<open>s\<close> whose ticker is not \<open>__proto__\<close>, \<open>addStock(s, v)\<close> with
  \<open>clone\<close> absent or false stores the reference \<open>s\<close> itself under the ticker of \<open>s\<close> and
  writes \<open>value = v\<close> and \<open>weight = v / totalValue\<close> on the object \<open>s\<close> in the store, the
  object the caller holds; and whenever the weights of a portfolio \<open>q\<close> that has \<open>s\<close> as
  a member are recomputed, in any store \<open>g\<close>, the weight of that same object is
  overwritten.
\<close>

theorem addStock_by_reference:
  assumes "clone \<noteq> Some True" and "ticker (objs h s) \<noteq> ''__proto__''"
  shows "own_property (stocks (snd (addStock h p s v clone))) (ticker (objs h s)) = Some s
       \<and> value_stock (objs (fst (addStock h p s v clone)) s) = Some v
       \<and> weight (objs (fst (addStock h p s v clone)) s)
           = Some (jdiv v (value_portfolio (snd (addStock h p s v clone))))
       \<and> (s \<in> set (members q) \<longrightarrow>
            weight (objs (fst (calculateWeights g q)) s)
              = Some (jdiv (to_number (value_stock (objs g s)))
                           (value_portfolio (snd (calculateWeights g q)))))"
proof -
  let ?p1 = "p\<lparr>stocks := obj_set (ticker (objs h s)) s (stocks p)\<rparr>"
  let ?h2 = "set_value h s v"
  have a: "addStock h p s v clone = calculateWeights ?h2 ?p1"
    using assms by (simp add: addStock_def stocks_set_def Let_def)
  have m: "s \<in> set (members ?p1)"
    using obj_set_member [of "ticker (objs h s)" s "stocks p"]
    by (force simp: set_members)
  have "own_property (stocks (snd (addStock h p s v clone))) (ticker (objs h s)) = Some s"
    by (simp add: a calculateWeights_portfolio own_property_obj_set)
  moreover have "value_stock (objs (fst (addStock h p s v clone)) s) = Some v"
    by (simp add: a calculateWeights_value set_value_def)
  moreover have "weight (objs (fst (addStock h p s v clone)) s)
           = Some (jdiv v (value_portfolio (snd (addStock h p s v clone))))"
    using calculateWeights_weight [OF m, of ?h2] by (simp add: a set_value_def)
  ultimately show ?thesis by (simp add: calculateWeights_weight)
qed

theorem addStock_by_reference_witness:
  "(None :: bool option) \<noteq> Some True
   \<and> ticker (objs (heap_of (run two_empty)) 0) \<noteq> ''__proto__''
   \<and> own_property (stocks (snd (addStock (heap_of (run two_empty)) Portfolio 0 (Fin 30) None)))
        (ticker (objs (heap_of (run two_empty)) 0)) = Some 0
   \<and> value_stock (objs (fst (addStock (heap_of (run two_empty)) Portfolio 0 (Fin 30) None)) 0)
       = Some (Fin 30)
   \<and> weight (objs (fst (addStock (heap_of (run two_empty)) Portfolio 0 (Fin 30) None)) 0)
       = Some (Fin 1)
   \<and> 0 \<in> set (members (ports (run intel_apple) 0))
   \<and> weight (objs (fst (calculateWeights (heap_of (run intel_apple)) (ports (run intel_apple) 0))) 0)
       = Some (Fin 0.6)"
proof -
  have t: "ticker (objs (heap_of (run two_empty)) 0) \<noteq> ''__proto__''"
    by (simp add: two_empty_def eval_defs)
  have v: "value_portfolio (snd (addStock (heap_of (run two_empty)) Portfolio 0 (Fin 30) None))
             = Fin 30"
    by (simp add: two_empty_def eval_defs)
  have m: "0 \<in> set (members (ports (run intel_apple) 0))"
    by (simp add: intel_apple_def eval_defs)
  have w: "jdiv (to_number (value_stock (objs (heap_of (run intel_apple)) 0)))
             (value_portfolio (snd (calculateWeights (heap_of (run intel_apple))
                (ports (run intel_apple) 0)))) = Fin 0.6"
    by (simp add: intel_apple_def eval_defs)
  show ?thesis
    using addStock_by_reference [of None "heap_of (run two_empty)" 0 Portfolio "Fin 30"
        "ports (run intel_apple) 0" "heap_of (run intel_apple)"] t v m w
    by simp
qed

end
